theory Spec2Isabelle
  imports Main "HOL-Library.Word"
begin

section \<open>Values shared by the voice capture code\<close>

text \<open>
  A \<^verbatim>\<open>Blob\<close> is its byte sequence and its \<^verbatim>\<open>type\<close> string; \<^verbatim>\<open>blob.size\<close> is the
  number of bytes. \<^verbatim>\<open>new Blob(parts, {type})\<close> concatenates the parts in list order.
\<close>

type_synonym byte = "8 word"

record blob =
  bytes :: "byte list"
  btype :: string

definition blob_size :: "blob \<Rightarrow> nat" where
  "blob_size b = length (bytes b)"

definition new_Blob :: "blob list \<Rightarrow> string \<Rightarrow> blob" where
  "new_Blob parts ty = \<lparr>bytes = concat (map bytes parts), btype = ty\<rparr>"

text \<open>
  A thrown JavaScript value: an \<^verbatim>\<open>Error\<close> object with its \<^verbatim>\<open>name\<close> and \<^verbatim>\<open>message\<close>, or
  a value that is not an \<^verbatim>\<open>instanceof Error\<close>. \<^verbatim>\<open>new Error(msg)\<close> has the name
  \<^verbatim>\<open>Error\<close>.
\<close>

datatype thrown = JsError string string | NonError

definition new_Error :: "string \<Rightarrow> thrown" where
  "new_Error msg = JsError ''Error'' msg"

text \<open>
  A promise is pending or settled; \<^verbatim>\<open>resolve\<close> and \<^verbatim>\<open>reject\<close> on a settled promise
  do nothing.
\<close>

datatype 'a promise = Pending | Resolved 'a | Rejected thrown

fun resolve :: "'a \<Rightarrow> 'a promise \<Rightarrow> 'a promise" where
  "resolve v Pending = Resolved v"
| "resolve v p = p"

fun reject :: "thrown \<Rightarrow> 'a promise \<Rightarrow> 'a promise" where
  "reject e Pending = Rejected e"
| "reject e p = p"

section \<open>VoiceRecorder (src/utils/VoiceRecorder.ts)\<close>

text \<open>
  The platform objects the class holds references to live in a store, because their
  handlers stay attached after the class has dropped its reference:
  \<^item> a \<^verbatim>\<open>MediaStream\<close> is the list of its tracks; \<open>stops\<close> counts the calls of
    \<^verbatim>\<open>track.stop()\<close> on a track;
  \<^item> a \<^verbatim>\<open>MediaRecorder\<close> has its stream, its \<^verbatim>\<open>mimeType\<close>, its \<^verbatim>\<open>state\<close>, the timeslice
    it was started with, and the handlers assigned to \<^verbatim>\<open>onstop\<close> and \<^verbatim>\<open>onerror\<close>
    (\<^verbatim>\<open>ondataavailable\<close> is the same closure for every recorder; \<^verbatim>\<open>onstart\<close> only logs);
  \<^item> every call of \<^verbatim>\<open>stopRecording\<close> creates one promise and at most one timeout; the
    handlers that \<^verbatim>\<open>stopRecording\<close> installs close over them, so they carry the index
    of the call.
\<close>

record track =
  label :: string
  stops :: nat

definition track_stop :: "track \<Rightarrow> track" where
  "track_stop t = t\<lparr>stops := Suc (stops t)\<rparr>"

datatype recording_state = inactive | recording | paused

datatype onerror_handler = StartOnError | StopOnError nat

record media_recorder =
  rec_stream :: nat
  mimeType :: string
  state :: recording_state
  timeslice :: "nat option"
  onstop :: "nat option"
  onerror :: onerror_handler

record stop_call =
  settled :: "blob promise"
  timer :: "nat option"

text \<open>
  The fields \<open>mediaRecorder\<close>, \<open>audioChunks\<close> and \<open>stream\<close> are the private fields of the
  class. \<open>uncaught\<close> collects what event handlers throw, and \<open>cleanups\<close> counts the calls
  of \<^verbatim>\<open>cleanup()\<close>.
\<close>

record world =
  mediaRecorder :: "nat option"
  audioChunks :: "blob list"
  stream :: "nat option"
  streams :: "track list list"
  recorders :: "media_recorder list"
  calls :: "stop_call list"
  uncaught :: "thrown list"
  cleanups :: nat

definition new_VoiceRecorder :: world where
  "new_VoiceRecorder =
     \<lparr>mediaRecorder = None, audioChunks = [], stream = None, streams = [],
      recorders = [], calls = [], uncaught = [], cleanups = 0\<rparr>"

subsection \<open>cleanup\<close>

definition cleanup :: "world \<Rightarrow> world" where
  "cleanup w =
     (let w1 = (case stream w of
                  None \<Rightarrow> w
                | Some sid \<Rightarrow>
                    w\<lparr>streams := (streams w)[sid := map track_stop (streams w ! sid)],
                      stream := None\<rparr>)
      in w1\<lparr>mediaRecorder := None, audioChunks := [], cleanups := Suc (cleanups w1)\<rparr>)"

subsection \<open>startRecording\<close>

text \<open>
  The device as \<^verbatim>\<open>startRecording\<close> sees it: the outcome of \<^verbatim>\<open>getUserMedia\<close> (rejected with a
  thrown value, or a new stream with these tracks), the answers of
  \<^verbatim>\<open>MediaRecorder.isTypeSupported\<close>, and what \<^verbatim>\<open>mediaRecorder.start(1000)\<close> throws, if
  anything. The constructor is taken not to throw for a type that \<^verbatim>\<open>isTypeSupported\<close>
  accepted.
\<close>

record device =
  getUserMedia :: "thrown + track list"
  isTypeSupported :: "string \<Rightarrow> bool"
  start_throws :: "thrown option"

definition mimeTypes :: "string list" where
  "mimeTypes =
     [''audio/webm;codecs=opus'', ''audio/webm'', ''audio/mp4'', ''audio/mpeg'', ''audio/wav'']"

text \<open>The \<^verbatim>\<open>for\<close> loop with its \<^verbatim>\<open>break\<close>; \<open>selectedMimeType\<close> starts as the empty string.\<close>

fun select_mime :: "(string \<Rightarrow> bool) \<Rightarrow> string list \<Rightarrow> string" where
  "select_mime supported [] = []"
| "select_mime supported (m # ms) = (if supported m then m else select_mime supported ms)"

text \<open>The \<^verbatim>\<open>catch\<close> block of \<^verbatim>\<open>startRecording\<close>, after its call of \<^verbatim>\<open>cleanup\<close>.\<close>

fun start_rethrow :: "thrown \<Rightarrow> thrown" where
  "start_rethrow (JsError n m) =
     (if n = ''NotAllowedError'' then
        new_Error ''Microphone access denied. Please allow microphone permissions in your browser settings and try again.''
      else if n = ''NotFoundError'' then
        new_Error ''No microphone found. Please connect a microphone and try again.''
      else if n = ''NotReadableError'' then
        new_Error ''Microphone is already in use by another application. Please close other applications using the microphone and try again.''
      else if n = ''OverconstrainedError'' then
        new_Error ''Microphone does not support the required audio format. Please try with a different microphone.''
      else new_Error (''Failed to access microphone: '' @ m))"
| "start_rethrow NonError = new_Error ''Failed to access microphone: Unknown error''"

definition start_catch :: "thrown \<Rightarrow> world \<Rightarrow> (thrown + unit) \<times> world" where
  "start_catch e w = (Inl (start_rethrow e), cleanup w)"

definition startRecording :: "device \<Rightarrow> world \<Rightarrow> (thrown + unit) \<times> world" where
  "startRecording dev w =
     (case getUserMedia dev of
        Inl e \<Rightarrow> start_catch e w
      | Inr tracks \<Rightarrow>
          let sid = length (streams w);
              w1 = w\<lparr>streams := streams w @ [tracks], stream := Some sid\<rparr>;
              selectedMimeType = select_mime (isTypeSupported dev) mimeTypes
          in if selectedMimeType = [] then
               start_catch (new_Error ''No supported audio format found on this device'') w1
             else
               let rid = length (recorders w1);
                   r = \<lparr>rec_stream = sid, mimeType = selectedMimeType, state = inactive,
                        timeslice = None, onstop = None, onerror = StartOnError\<rparr>;
                   w2 = w1\<lparr>recorders := recorders w1 @ [r], mediaRecorder := Some rid,
                           audioChunks := []\<rparr>
               in (case start_throws dev of
                     Some e \<Rightarrow> start_catch e w2
                   | None \<Rightarrow>
                       (Inr (),
                        w2\<lparr>recorders :=
                             (recorders w2)[rid := r\<lparr>state := recording, timeslice := Some 1000\<rparr>]\<rparr>)))"

subsection \<open>isRecording\<close>

definition isRecording :: "world \<Rightarrow> bool" where
  "isRecording w =
     (case mediaRecorder w of
        None \<Rightarrow> False
      | Some rid \<Rightarrow> state (recorders w ! rid) = recording)"

subsection \<open>stopRecording and the handlers\<close>

definition clearTimeout :: "nat \<Rightarrow> world \<Rightarrow> world" where
  "clearTimeout cid w = w\<lparr>calls := (calls w)[cid := (calls w ! cid)\<lparr>timer := None\<rparr>]\<rparr>"

definition reject_call :: "nat \<Rightarrow> thrown \<Rightarrow> world \<Rightarrow> world" where
  "reject_call cid e w =
     w\<lparr>calls := (calls w)[cid := (calls w ! cid)\<lparr>settled := reject e (settled (calls w ! cid))\<rparr>]\<rparr>"

definition resolve_call :: "nat \<Rightarrow> blob \<Rightarrow> world \<Rightarrow> world" where
  "resolve_call cid b w =
     w\<lparr>calls := (calls w)[cid := (calls w ! cid)\<lparr>settled := resolve b (settled (calls w ! cid))\<rparr>]\<rparr>"

text \<open>The handler assigned to \<^verbatim>\<open>ondataavailable\<close> in \<^verbatim>\<open>startRecording\<close>.\<close>

definition ondataavailable :: "blob \<Rightarrow> world \<Rightarrow> world" where
  "ondataavailable d w =
     (if blob_size d > 0 then w\<lparr>audioChunks := audioChunks w @ [d]\<rparr> else w)"

text \<open>
  The handler assigned to \<^verbatim>\<open>onerror\<close> in \<^verbatim>\<open>startRecording\<close>. The argument is
  \<^verbatim>\<open>event.error?.message\<close>. The handler throws, and
  \<^verbatim>\<open>'Recording failed: ' + m || 'Unknown error'\<close> is \<^verbatim>\<open>('Recording failed: ' + m) || ...\<close>,
  whose left operand is never empty.
\<close>

definition onerror_start :: "string option \<Rightarrow> world \<Rightarrow> world" where
  "onerror_start m w =
     w\<lparr>uncaught := uncaught w @
        [new_Error (''Recording failed: '' @ (case m of None \<Rightarrow> ''undefined'' | Some s \<Rightarrow> s))]\<rparr>"

text \<open>The callback of the \<^verbatim>\<open>setTimeout(..., 5000)\<close> in \<^verbatim>\<open>stopRecording\<close>.\<close>

definition stop_timeout :: "nat \<Rightarrow> world \<Rightarrow> world" where
  "stop_timeout cid w =
     reject_call cid (new_Error ''Recording stop timeout - please try again'') (cleanup w)"

text \<open>The handler assigned to \<^verbatim>\<open>onstop\<close> in \<^verbatim>\<open>stopRecording\<close>.\<close>

definition blob_type :: "world \<Rightarrow> string" where
  "blob_type w =
     (case mediaRecorder w of
        None \<Rightarrow> ''audio/webm''
      | Some rid \<Rightarrow>
          (if mimeType (recorders w ! rid) = [] then ''audio/webm''
           else mimeType (recorders w ! rid)))"

definition onstop_handler :: "nat \<Rightarrow> world \<Rightarrow> world" where
  "onstop_handler cid w =
     (let w1 = clearTimeout cid w in
      if length (audioChunks w1) = 0 then
        reject_call cid
          (new_Error ''No audio data recorded. Please try speaking louder or check your microphone.'')
          (cleanup w1)
      else
        let audioBlob = new_Blob (audioChunks w1) (blob_type w1) in
        if blob_size audioBlob = 0 then
          reject_call cid (new_Error ''Empty audio recording. Please try again.'') (cleanup w1)
        else resolve_call cid audioBlob (cleanup w1))"

text \<open>The handler assigned to \<^verbatim>\<open>onerror\<close> in \<^verbatim>\<open>stopRecording\<close>.\<close>

definition onerror_stop :: "nat \<Rightarrow> string option \<Rightarrow> world \<Rightarrow> world" where
  "onerror_stop cid m w =
     reject_call cid
       (new_Error (''Recording failed: '' @
          (case m of None \<Rightarrow> ''Unknown error''
           | Some s \<Rightarrow> if s = [] then ''Unknown error'' else s)))
       (cleanup (clearTimeout cid w))"

text \<open>
  \<^verbatim>\<open>stopRecording\<close> returns the index of the promise it created. \<^verbatim>\<open>mediaRecorder.stop()\<close>
  on a recording recorder sets its state to \<^verbatim>\<open>inactive\<close> at once; the \<^verbatim>\<open>dataavailable\<close>
  and \<^verbatim>\<open>stop\<close> events come later.
\<close>

definition stopRecording :: "world \<Rightarrow> nat \<times> world" where
  "stopRecording w =
     (let cid = length (calls w) in
      case mediaRecorder w of
        None \<Rightarrow>
          (cid, w\<lparr>calls := calls w @
                   [\<lparr>settled = Rejected (new_Error ''No recording in progress''), timer = None\<rparr>]\<rparr>)
      | Some rid \<Rightarrow>
          let r = recorders w ! rid;
              w1 = w\<lparr>calls := calls w @ [\<lparr>settled = Pending, timer = Some 5000\<rparr>],
                     recorders := (recorders w)[rid := r\<lparr>onstop := Some cid, onerror := StopOnError cid\<rparr>]\<rparr>
          in if state r = recording then
               (cid, w1\<lparr>recorders := (recorders w1)[rid := (recorders w1 ! rid)\<lparr>state := inactive\<rparr>]\<rparr>)
             else
               (cid, reject_call cid (new_Error ''Recording is not active'')
                       (cleanup (clearTimeout cid w1))))"

subsection \<open>Events\<close>

text \<open>
  What the runtime delivers: a \<^verbatim>\<open>dataavailable\<close>, \<^verbatim>\<open>error\<close> or \<^verbatim>\<open>stop\<close> event of a
  recorder, or the firing of a timeout. An \<^verbatim>\<open>error\<close> event comes from a recorder that
  the runtime has set to \<^verbatim>\<open>inactive\<close>. A timeout that was cleared or has fired does not
  fire.
\<close>

datatype event =
    DataAvailable nat blob
  | RecorderError nat "string option"
  | RecorderStop nat
  | TimerFires nat

fun handle :: "event \<Rightarrow> world \<Rightarrow> world" where
  "handle (DataAvailable rid d) w =
     (if rid < length (recorders w) then ondataavailable d w else w)"
| "handle (RecorderError rid m) w =
     (if rid < length (recorders w) then
        let w1 = w\<lparr>recorders := (recorders w)[rid := (recorders w ! rid)\<lparr>state := inactive\<rparr>]\<rparr>
        in (case onerror (recorders w ! rid) of
              StartOnError \<Rightarrow> onerror_start m w1
            | StopOnError cid \<Rightarrow> onerror_stop cid m w1)
      else w)"
| "handle (RecorderStop rid) w =
     (if rid < length (recorders w) then
        (case onstop (recorders w ! rid) of
           None \<Rightarrow> w
         | Some cid \<Rightarrow> onstop_handler cid w)
      else w)"
| "handle (TimerFires cid) w =
     (if cid < length (calls w) \<and> timer (calls w ! cid) \<noteq> None then
        stop_timeout cid (clearTimeout cid w)
      else w)"

definition run :: "event list \<Rightarrow> world \<Rightarrow> world" where
  "run evs w = foldl (\<lambda>s e. handle e s) w evs"

text \<open>
  In a state the class can reach, its references point into the store, and so do the
  promise indices held by the handlers.
\<close>

definition handler_ok :: "nat \<Rightarrow> media_recorder \<Rightarrow> bool" where
  "handler_ok n r =
     ((case onstop r of None \<Rightarrow> True | Some cid \<Rightarrow> cid < n) \<and>
      (case onerror r of StartOnError \<Rightarrow> True | StopOnError cid \<Rightarrow> cid < n))"

definition wf :: "world \<Rightarrow> bool" where
  "wf w =
     ((case mediaRecorder w of None \<Rightarrow> True | Some rid \<Rightarrow> rid < length (recorders w)) \<and>
      (case stream w of None \<Rightarrow> True | Some sid \<Rightarrow> sid < length (streams w)) \<and>
      list_all (handler_ok (length (calls w))) (recorders w))"

section \<open>convertBlobToBase64 (src/utils/VoiceRecorder.ts, and its copy beside MicrophoneButton)\<close>

text \<open>
  The promise of one call, the \<^verbatim>\<open>setTimeout(..., 10000)\<close> while it is armed, and whether a
  \<^verbatim>\<open>FileReader\<close> was created and \<^verbatim>\<open>readAsDataURL(blob)\<close> called on it.
\<close>

record conversion =
  cpromise :: "string promise"
  ctimer :: "nat option"
  reader :: "blob option"

definition convertBlobToBase64 :: "blob \<Rightarrow> conversion" where
  "convertBlobToBase64 b =
     (if blob_size b = 0 then
        \<lparr>cpromise = Rejected (new_Error ''Cannot convert empty blob to base64''),
         ctimer = None, reader = None\<rparr>
      else \<lparr>cpromise = Pending, ctimer = Some 10000, reader = Some b\<rparr>)"

text \<open>\<^verbatim>\<open>s.split(',')\<close>, for any separator character.\<close>

fun split_on :: "char \<Rightarrow> string \<Rightarrow> string list" where
  "split_on c [] = [[]]"
| "split_on c (x # xs) =
     (if x = c then [] # split_on c xs
      else (case split_on c xs of
              [] \<Rightarrow> [[x]]
            | y # ys \<Rightarrow> (x # y) # ys))"

text \<open>
  The \<^verbatim>\<open>onloadend\<close> handler; the argument is \<^verbatim>\<open>reader.result\<close>, \<^verbatim>\<open>null\<close> being \<open>None\<close>.
  The empty string is falsy, as \<^verbatim>\<open>undefined\<close> is.
\<close>

definition onloadend :: "string option \<Rightarrow> conversion \<Rightarrow> conversion" where
  "onloadend result c =
     (let c1 = c\<lparr>ctimer := None\<rparr> in
      case result of
        None \<Rightarrow> c1\<lparr>cpromise := reject (new_Error ''Failed to convert audio to base64'') (cpromise c1)\<rparr>
      | Some base64String \<Rightarrow>
          if base64String = [] then
            c1\<lparr>cpromise := reject (new_Error ''Failed to convert audio to base64'') (cpromise c1)\<rparr>
          else
            (case split_on CHR '','' base64String of
               _ # base64Content # _ \<Rightarrow>
                 if base64Content = [] then
                   c1\<lparr>cpromise := reject (new_Error ''Invalid base64 data'') (cpromise c1)\<rparr>
                 else c1\<lparr>cpromise := resolve base64Content (cpromise c1)\<rparr>
             | _ \<Rightarrow> c1\<lparr>cpromise := reject (new_Error ''Invalid base64 data'') (cpromise c1)\<rparr>))"

definition reader_onerror :: "conversion \<Rightarrow> conversion" where
  "reader_onerror c =
     c\<lparr>ctimer := None,
       cpromise := reject (new_Error ''Failed to convert audio to base64'') (cpromise c)\<rparr>"

text \<open>
  The timeout callback. The two copies of the function differ in its message only, which
  is the parameter \<open>msg\<close>.
\<close>

definition conversion_timeout :: "string \<Rightarrow> conversion \<Rightarrow> conversion" where
  "conversion_timeout msg c = c\<lparr>cpromise := reject (new_Error msg) (cpromise c)\<rparr>"

definition utils_timeout_message :: string where
  "utils_timeout_message = ''Conversion timeout - please try again''"

definition button_timeout_message :: string where
  "button_timeout_message = ''Conversion timeout''"

datatype conv_event = LoadEnd "string option" | ReaderError | ConvTimerFires

text \<open>
  The reader has events only if it was created, and the timeout fires only while armed.
\<close>

fun conv_handle :: "string \<Rightarrow> conv_event \<Rightarrow> conversion \<Rightarrow> conversion" where
  "conv_handle msg (LoadEnd result) c = (if reader c \<noteq> None then onloadend result c else c)"
| "conv_handle msg ReaderError c = (if reader c \<noteq> None then reader_onerror c else c)"
| "conv_handle msg ConvTimerFires c =
     (if ctimer c \<noteq> None then conversion_timeout msg (c\<lparr>ctimer := None\<rparr>) else c)"

definition conv_run :: "string \<Rightarrow> conv_event list \<Rightarrow> conversion \<Rightarrow> conversion" where
  "conv_run msg evs c = foldl (\<lambda>s e. conv_handle msg e s) c evs"

section \<open>String.prototype.trim\<close>

text \<open>
  Characters are Latin-1 code units here; the white space of \<^verbatim>\<open>trim\<close> in that range is
  tab, line feed, vertical tab, form feed, carriage return, space and no-break space.
\<close>

definition is_ws :: "char \<Rightarrow> bool" where
  "is_ws c = (c \<in> set [CHR 0x09, CHR 0x0A, CHR 0x0B, CHR 0x0C, CHR 0x0D, CHR 0x20, CHR 0xA0])"

definition trim :: "string \<Rightarrow> string" where
  "trim s = rev (dropWhile is_ws (rev (dropWhile is_ws s)))"

section \<open>ClientSpeechRecognition\<close>

text \<open>
  A recognition result with the transcript of its first alternative
  (\<^verbatim>\<open>event.results[i][0].transcript\<close>) and its \<^verbatim>\<open>isFinal\<close> flag; a \<^verbatim>\<open>result\<close> event with
  its \<^verbatim>\<open>resultIndex\<close> and its \<^verbatim>\<open>results\<close>.
\<close>

record recognition_result =
  transcript :: string
  isFinal :: bool

record result_event =
  resultIndex :: nat
  results :: "recognition_result list"

text \<open>
  Every call of \<^verbatim>\<open>startListening\<close> has its own promise and its own \<^verbatim>\<open>finalTranscript\<close>
  variable. \<open>installed\<close> is the call whose closures are the recognizer's current
  \<^verbatim>\<open>onstart\<close>, \<^verbatim>\<open>onresult\<close>, \<^verbatim>\<open>onend\<close> and \<^verbatim>\<open>onerror\<close> handlers.
\<close>

record listen_call =
  finalTranscript :: string
  outcome :: "string promise"

record recognizer =
  recognition :: bool
  isListening :: bool
  installed :: "nat option"
  lcalls :: "listen_call list"

text \<open>The constructor; the argument says whether the browser has a recognition API.\<close>

definition new_ClientSpeechRecognition :: "bool \<Rightarrow> thrown + recognizer" where
  "new_ClientSpeechRecognition supported =
     (if \<not> supported then Inl (new_Error ''Speech recognition not supported in this browser'')
      else Inr \<lparr>recognition = True, isListening = False, installed = None, lcalls = []\<rparr>)"

definition settle_listen :: "nat \<Rightarrow> (string promise \<Rightarrow> string promise) \<Rightarrow> recognizer \<Rightarrow> recognizer" where
  "settle_listen cid f s =
     s\<lparr>lcalls := (lcalls s)[cid := (lcalls s ! cid)\<lparr>outcome := f (outcome (lcalls s ! cid))\<rparr>]\<rparr>"

text \<open>
  \<^verbatim>\<open>startListening\<close> returns the index of its promise. The first argument says whether
  \<^verbatim>\<open>this.recognition.start()\<close> throws.
\<close>

definition startListening :: "bool \<Rightarrow> recognizer \<Rightarrow> nat \<times> recognizer" where
  "startListening start_fails s =
     (let cid = length (lcalls s) in
      if \<not> recognition s then
        (cid, s\<lparr>lcalls := lcalls s @
                 [\<lparr>finalTranscript = [],
                   outcome = Rejected (new_Error ''Speech recognition not available'')\<rparr>]\<rparr>)
      else if isListening s then
        (cid, s\<lparr>lcalls := lcalls s @
                 [\<lparr>finalTranscript = [], outcome = Rejected (new_Error ''Already listening'')\<rparr>]\<rparr>)
      else
        let s1 = s\<lparr>lcalls := lcalls s @ [\<lparr>finalTranscript = [], outcome = Pending\<rparr>],
                   installed := Some cid\<rparr>
        in if start_fails then
             (cid, settle_listen cid (reject (new_Error ''Failed to start speech recognition''))
                     (s1\<lparr>isListening := False\<rparr>))
           else (cid, s1))"

text \<open>
  The loop of the \<^verbatim>\<open>onresult\<close> handler runs over the results from \<^verbatim>\<open>resultIndex\<close> on, in
  index order.
\<close>

definition onresult :: "result_event \<Rightarrow> string \<Rightarrow> string" where
  "onresult ev acc =
     foldl (\<lambda>a r. if isFinal r then a @ transcript r else a) acc
       (drop (resultIndex ev) (results ev))"

definition onend :: "nat \<Rightarrow> recognizer \<Rightarrow> recognizer" where
  "onend cid s =
     (let s1 = s\<lparr>isListening := False\<rparr>;
          t = trim (finalTranscript (lcalls s1 ! cid))
      in if t \<noteq> [] then settle_listen cid (resolve t) s1
         else settle_listen cid (reject (new_Error ''No speech detected'')) s1)"

definition recognition_error_message :: "string \<Rightarrow> string" where
  "recognition_error_message code =
     (if code = ''no-speech'' then ''No speech detected. Please try again.''
      else if code = ''audio-capture'' then ''Microphone not accessible. Please check permissions.''
      else if code = ''not-allowed'' then
        ''Microphone permission denied. Please allow microphone access.''
      else if code = ''network'' then ''Network error occurred during speech recognition.''
      else if code = ''service-not-allowed'' then ''Speech recognition service not allowed.''
      else ''Speech recognition error: '' @ code)"

definition recognition_onerror :: "nat \<Rightarrow> string \<Rightarrow> recognizer \<Rightarrow> recognizer" where
  "recognition_onerror cid code s =
     settle_listen cid (reject (new_Error (recognition_error_message code)))
       (s\<lparr>isListening := False\<rparr>)"

datatype listen_event = OnStart | OnResult result_event | OnEnd | OnError string

fun listen_handle :: "listen_event \<Rightarrow> recognizer \<Rightarrow> recognizer" where
  "listen_handle OnStart s =
     (case installed s of None \<Rightarrow> s | Some cid \<Rightarrow> s\<lparr>isListening := True\<rparr>)"
| "listen_handle (OnResult ev) s =
     (case installed s of
        None \<Rightarrow> s
      | Some cid \<Rightarrow>
          s\<lparr>lcalls := (lcalls s)[cid := (lcalls s ! cid)
               \<lparr>finalTranscript := onresult ev (finalTranscript (lcalls s ! cid))\<rparr>]\<rparr>)"
| "listen_handle OnEnd s =
     (case installed s of None \<Rightarrow> s | Some cid \<Rightarrow> onend cid s)"
| "listen_handle (OnError code) s =
     (case installed s of None \<Rightarrow> s | Some cid \<Rightarrow> recognition_onerror cid code s)"

definition listen_run :: "listen_event list \<Rightarrow> recognizer \<Rightarrow> recognizer" where
  "listen_run evs s = foldl (\<lambda>t e. listen_handle e t) s evs"

text \<open>The final entries that the handler reads in a sequence of \<^verbatim>\<open>result\<close> events.\<close>

definition final_entries :: "result_event list \<Rightarrow> recognition_result list" where
  "final_entries evs =
     filter isFinal (concat (map (\<lambda>ev. drop (resultIndex ev) (results ev)) evs))"

section \<open>MicrophoneButton.handleStopRecording (src/components/ClientMicrophoneButton.tsx)\<close>

text \<open>
  The parsed body of the service's response: \<^verbatim>\<open>null\<close>, or an object with its optional
  \<^verbatim>\<open>text\<close> and \<^verbatim>\<open>error\<close> strings. \<^verbatim>\<open>response.json()\<close> may reject instead.
\<close>

datatype jdata = JNull | JObj "string option" "string option"

record response =
  ok :: bool
  json :: "thrown + jdata"

text \<open>What the handler does to the interface and the network, in order.\<close>

datatype effect =
    SetIsRecording bool
  | SetIsProcessing bool
  | SetRecordingDuration nat
  | ClearInterval
  | Fetch string
  | Toast string string bool
  | OnTranscription string

text \<open>\<^verbatim>\<open>s.includes(p)\<close>.\<close>

fun starts_with :: "string \<Rightarrow> string \<Rightarrow> bool" where
  "starts_with s [] = True"
| "starts_with [] (p # ps) = False"
| "starts_with (x # xs) (p # ps) = (x = p \<and> starts_with xs ps)"

fun str_includes :: "string \<Rightarrow> string \<Rightarrow> bool" where
  "str_includes [] p = starts_with [] p"
| "str_includes (x # xs) p = (starts_with (x # xs) p \<or> str_includes xs p)"

text \<open>The \<^verbatim>\<open>catch\<close> block: a destructive toast with the error's message.\<close>

fun catch_toast :: "thrown \<Rightarrow> effect list" where
  "catch_toast (JsError n m) = [Toast ''Error'' m True]"
| "catch_toast NonError = [Toast ''Error'' ''Failed to process audio'' True]"

definition no_speech_toast :: "effect list" where
  "no_speech_toast = [Toast ''No speech detected'' ''Please try speaking more clearly'' True]"

text \<open>
  From \<^verbatim>\<open>await response.json()\<close> to the end of the \<^verbatim>\<open>try\<close> block. \<open>null_msg\<close> is the
  message of the \<^verbatim>\<open>TypeError\<close> that reading \<^verbatim>\<open>data.error\<close> of \<^verbatim>\<open>null\<close> throws.
\<close>

definition handle_response :: "string \<Rightarrow> response \<Rightarrow> effect list" where
  "handle_response null_msg resp =
     (case json resp of
        Inl e \<Rightarrow> catch_toast e
      | Inr data \<Rightarrow>
          if \<not> ok resp then
            (case data of
               JNull \<Rightarrow> catch_toast (JsError ''TypeError'' null_msg)
             | JObj text err \<Rightarrow>
                 if (case err of None \<Rightarrow> False
                     | Some m \<Rightarrow> str_includes m ''OpenAI API key not configured'')
                 then [Toast ''Configuration Required''
                         ''OpenAI API key needs to be configured for speech-to-text feature.'' True]
                 else [Toast ''Error''
                         (case err of
                            None \<Rightarrow> ''Failed to process audio. Please try again.''
                          | Some m \<Rightarrow>
                              if m = [] then ''Failed to process audio. Please try again.'' else m)
                         True])
          else
            (case data of
               JNull \<Rightarrow> no_speech_toast
             | JObj None err \<Rightarrow> no_speech_toast
             | JObj (Some text) err \<Rightarrow>
                 if text \<noteq> [] \<and> trim text \<noteq> [] then
                   [OnTranscription (trim text),
                    Toast ''Speech recognized'' ''Text has been transcribed successfully'' False]
                 else no_speech_toast))"

text \<open>
  What the handler awaits: whether the interval timer is set, the promise of
  \<^verbatim>\<open>recorderRef.current.stopRecording()\<close> (\<open>None\<close> when there is no recorder), the events of
  the file reader, and the outcome of \<^verbatim>\<open>fetch\<close>. Awaiting a promise that stays pending
  suspends the handler for good.
\<close>

record stop_env =
  has_interval :: bool
  stop_result :: "blob promise option"
  reader_events :: "conv_event list"
  fetch_result :: "thrown + response"
  null_error_message :: string

definition handleStopRecording :: "stop_env \<Rightarrow> effect list" where
  "handleStopRecording env =
     (let pre = [SetIsRecording False, SetIsProcessing True] @
                (if has_interval env then [ClearInterval] else []);
          fin = [SetIsProcessing False, SetRecordingDuration 0]
      in case stop_result env of
           None \<Rightarrow> pre @ catch_toast (new_Error ''No recorder available'') @ fin
         | Some Pending \<Rightarrow> pre
         | Some (Rejected e) \<Rightarrow> pre @ catch_toast e @ fin
         | Some (Resolved audioBlob) \<Rightarrow>
             (case cpromise (conv_run button_timeout_message (reader_events env)
                               (convertBlobToBase64 audioBlob)) of
                Pending \<Rightarrow> pre
              | Rejected e \<Rightarrow> pre @ catch_toast e @ fin
              | Resolved base64Audio \<Rightarrow>
                  pre @ [Fetch base64Audio] @
                  (case fetch_result env of
                     Inl e \<Rightarrow> catch_toast e
                   | Inr resp \<Rightarrow> handle_response (null_error_message env) resp) @ fin))"

section \<open>Sample inputs\<close>

definition mic_track :: track where
  "mic_track = \<lparr>label = ''mic'', stops = 0\<rparr>"

definition webm_device :: device where
  "webm_device =
     \<lparr>getUserMedia = Inr [mic_track], isTypeSupported = (\<lambda>m. m = ''audio/webm''),
      start_throws = None\<rparr>"

definition no_format_device :: device where
  "no_format_device =
     \<lparr>getUserMedia = Inr [mic_track], isTypeSupported = (\<lambda>m. False), start_throws = None\<rparr>"

definition chunk_a :: blob where
  "chunk_a = \<lparr>bytes = [1, 2], btype = ''audio/webm''\<rparr>"

definition chunk_b :: blob where
  "chunk_b = \<lparr>bytes = [3], btype = ''audio/webm''\<rparr>"

definition chunk_c :: blob where
  "chunk_c = \<lparr>bytes = [4, 5, 6], btype = ''audio/webm''\<rparr>"

definition empty_blob :: blob where
  "empty_blob = \<lparr>bytes = [], btype = ''audio/webm''\<rparr>"

definition denied_device :: device where
  "denied_device =
     \<lparr>getUserMedia = Inl (JsError ''NotAllowedError'' ''Permission denied''),
      isTypeSupported = (\<lambda>m. m = ''audio/webm''), start_throws = None\<rparr>"

text \<open>A session that was started on the sample device and has collected one chunk.\<close>

definition recording_session :: world where
  "recording_session =
     run [DataAvailable 0 chunk_a] (snd (startRecording webm_device new_VoiceRecorder))"

definition stopping_session :: world where
  "stopping_session = snd (stopRecording recording_session)"

fun is_data :: "event \<Rightarrow> bool" where
  "is_data (DataAvailable rid d) = True"
| "is_data (RecorderError rid m) = False"
| "is_data (RecorderStop rid) = False"
| "is_data (TimerFires cid) = False"

definition fresh_recognizer :: recognizer where
  "fresh_recognizer = \<lparr>recognition = True, isListening = False, installed = None, lcalls = []\<rparr>"

definition hello_event :: result_event where
  "hello_event =
     \<lparr>resultIndex = 0,
      results = [\<lparr>transcript = ''hel'', isFinal = False\<rparr>, \<lparr>transcript = '' hello '', isFinal = True\<rparr>]\<rparr>"

definition interim_event :: result_event where
  "interim_event = \<lparr>resultIndex = 0, results = [\<lparr>transcript = ''hel'', isFinal = False\<rparr>]\<rparr>"

definition listening_recognizer :: recognizer where
  "listening_recognizer = snd (startListening False fresh_recognizer)"

definition blank_response :: response where
  "blank_response = \<lparr>ok = True, json = Inr (JObj (Some ''  '') None)\<rparr>"

definition empty_audio_env :: stop_env where
  "empty_audio_env =
     \<lparr>has_interval = True, stop_result = Some (Resolved empty_blob), reader_events = [],
      fetch_result = Inr blank_response, null_error_message = []\<rparr>"

section \<open>Facts about cleanup and startRecording\<close>

lemma cleanup_fields:
  "stream (cleanup w) = None" "mediaRecorder (cleanup w) = None" "audioChunks (cleanup w) = []"
  "recorders (cleanup w) = recorders w" "calls (cleanup w) = calls w"
  "uncaught (cleanup w) = uncaught w" "cleanups (cleanup w) = Suc (cleanups w)"
  by (simp_all add: cleanup_def Let_def split: option.splits)

lemma cleanup_streams:
  "streams (cleanup w) =
     (case stream w of None \<Rightarrow> streams w
      | Some sid \<Rightarrow> (streams w)[sid := map track_stop (streams w ! sid)])"
  by (simp add: cleanup_def Let_def split: option.splits)

lemma select_mime_first:
  "select_mime ok_ty ms \<noteq> [] \<Longrightarrow>
     \<exists>pre post. ms = pre @ select_mime ok_ty ms # post \<and> ok_ty (select_mime ok_ty ms) \<and>
       (\<forall>x\<in>set pre. \<not> ok_ty x)"
proof (induction ms)
  case Nil
  then show ?case by simp
next
  case (Cons m ms)
  show ?case
  proof (cases "ok_ty m")
    case True
    then have "m # ms = [] @ select_mime ok_ty (m # ms) # ms" by simp
    with True show ?thesis by (metis empty_iff list.set(1) select_mime.simps(2))
  next
    case False
    with Cons obtain pre post where
      "ms = pre @ select_mime ok_ty ms # post" "ok_ty (select_mime ok_ty ms)"
      "\<forall>x\<in>set pre. \<not> ok_ty x"
      by auto
    with False have "m # ms = (m # pre) @ select_mime ok_ty (m # ms) # post \<and>
        ok_ty (select_mime ok_ty (m # ms)) \<and> (\<forall>x\<in>set (m # pre). \<not> ok_ty x)"
      by simp
    then show ?thesis by blast
  qed
qed

lemma select_mime_none:
  "(\<forall>m\<in>set ms. \<not> ok_ty m) \<Longrightarrow> select_mime ok_ty ms = []"
  by (induction ms) auto

lemma select_mime_some:
  "m \<in> set ms \<Longrightarrow> ok_ty m \<Longrightarrow> [] \<notin> set ms \<Longrightarrow> select_mime ok_ty ms \<noteq> []"
  by (induction ms) auto

lemma mimeTypes_nonempty: "[] \<notin> set mimeTypes"
  by (simp add: mimeTypes_def)

lemma select_mime_empty_iff:
  "(select_mime ok_ty mimeTypes = []) = (\<forall>m\<in>set mimeTypes. \<not> ok_ty m)"
  using select_mime_none [of mimeTypes ok_ty] select_mime_some [of _ mimeTypes ok_ty]
    mimeTypes_nonempty by blast

text \<open>The three exits of \<^verbatim>\<open>startRecording\<close> through its \<^verbatim>\<open>catch\<close> block, and its normal one.\<close>

lemma startRecording_cases:
  "startRecording dev w =
     (case getUserMedia dev of
        Inl e \<Rightarrow> (Inl (start_rethrow e), cleanup w)
      | Inr tracks \<Rightarrow>
          if select_mime (isTypeSupported dev) mimeTypes = [] then
            (Inl (new_Error ''Failed to access microphone: No supported audio format found on this device''),
             cleanup (w\<lparr>streams := streams w @ [tracks], stream := Some (length (streams w))\<rparr>))
          else (case start_throws dev of
                  Some e \<Rightarrow>
                    (Inl (start_rethrow e),
                     cleanup (w\<lparr>streams := streams w @ [tracks], stream := Some (length (streams w)),
                                recorders := recorders w @
                                  [\<lparr>rec_stream = length (streams w),
                                    mimeType = select_mime (isTypeSupported dev) mimeTypes,
                                    state = inactive, timeslice = None, onstop = None,
                                    onerror = StartOnError\<rparr>],
                                mediaRecorder := Some (length (recorders w)), audioChunks := []\<rparr>))
                | None \<Rightarrow>
                    (Inr (),
                     w\<lparr>streams := streams w @ [tracks], stream := Some (length (streams w)),
                       recorders := recorders w @
                         [\<lparr>rec_stream = length (streams w),
                           mimeType = select_mime (isTypeSupported dev) mimeTypes,
                           state = recording, timeslice = Some 1000, onstop = None,
                           onerror = StartOnError\<rparr>],
                       mediaRecorder := Some (length (recorders w)), audioChunks := []\<rparr>)))"
  by (simp add: startRecording_def start_catch_def Let_def new_Error_def
           split: sum.splits option.splits)

lemma isRecording_iff:
  "isRecording w = (\<exists>rid. mediaRecorder w = Some rid \<and> state (recorders w ! rid) = recording)"
  by (simp add: isRecording_def split: option.splits)

lemma startRecording_Inr:
  assumes "startRecording dev w = (Inr (), w1)"
  shows "\<exists>tracks.
     select_mime (isTypeSupported dev) mimeTypes \<noteq> [] \<and>
     w1 = w\<lparr>streams := streams w @ [tracks], stream := Some (length (streams w)),
            recorders := recorders w @
              [\<lparr>rec_stream = length (streams w),
                mimeType = select_mime (isTypeSupported dev) mimeTypes,
                state = recording, timeslice = Some 1000, onstop = None,
                onerror = StartOnError\<rparr>],
            mediaRecorder := Some (length (recorders w)), audioChunks := []\<rparr>"
  using assms
  by (auto simp: startRecording_cases split: sum.splits if_splits option.splits)

section \<open>Facts about the events and the handlers of stopRecording\<close>

lemma run_append: "run (xs @ ys) w = run ys (run xs w)"
  by (simp add: run_def)

lemma run_Cons: "run (e # es) w = run es (handle e w)"
  by (simp add: run_def)

lemma run_Nil: "run [] w = w"
  by (simp add: run_def)

lemma run_data:
  "rid < length (recorders w) \<Longrightarrow>
   run (map (DataAvailable rid) bs) w =
     w\<lparr>audioChunks := audioChunks w @ filter (\<lambda>b. 0 < blob_size b) bs\<rparr>"
proof (induction bs arbitrary: w)
  case Nil
  then show ?case by (simp add: run_Nil)
next
  case (Cons b bs)
  show ?case
  proof (cases "0 < blob_size b")
    case True
    with Cons.prems have "handle (DataAvailable rid b) w = w\<lparr>audioChunks := audioChunks w @ [b]\<rparr>"
      by (simp add: ondataavailable_def)
    with Cons.prems Cons.IH [of "w\<lparr>audioChunks := audioChunks w @ [b]\<rparr>"] True
    show ?thesis by (simp add: run_Cons)
  next
    case False
    with Cons.prems have "handle (DataAvailable rid b) w = w"
      by (simp add: ondataavailable_def)
    with Cons.prems Cons.IH [of w] False
    show ?thesis by (simp add: run_Cons)
  qed
qed

lemma concat_nonempty_chunks:
  "concat (map bytes (filter (\<lambda>b. 0 < blob_size b) bs)) = concat (map bytes bs)"
  by (induction bs) (auto simp: blob_size_def)

lemma reject_call_fields:
  "mediaRecorder (reject_call cid e w) = mediaRecorder w" "stream (reject_call cid e w) = stream w"
  "audioChunks (reject_call cid e w) = audioChunks w" "streams (reject_call cid e w) = streams w"
  "recorders (reject_call cid e w) = recorders w" "cleanups (reject_call cid e w) = cleanups w"
  "uncaught (reject_call cid e w) = uncaught w"
  "length (calls (reject_call cid e w)) = length (calls w)"
  by (simp_all add: reject_call_def)

lemma resolve_call_fields:
  "mediaRecorder (resolve_call cid b w) = mediaRecorder w" "stream (resolve_call cid b w) = stream w"
  "audioChunks (resolve_call cid b w) = audioChunks w" "streams (resolve_call cid b w) = streams w"
  "recorders (resolve_call cid b w) = recorders w" "cleanups (resolve_call cid b w) = cleanups w"
  "uncaught (resolve_call cid b w) = uncaught w"
  "length (calls (resolve_call cid b w)) = length (calls w)"
  by (simp_all add: resolve_call_def)

lemma clearTimeout_fields:
  "mediaRecorder (clearTimeout cid w) = mediaRecorder w" "stream (clearTimeout cid w) = stream w"
  "audioChunks (clearTimeout cid w) = audioChunks w" "streams (clearTimeout cid w) = streams w"
  "recorders (clearTimeout cid w) = recorders w" "cleanups (clearTimeout cid w) = cleanups w"
  "uncaught (clearTimeout cid w) = uncaught w"
  "length (calls (clearTimeout cid w)) = length (calls w)"
  by (simp_all add: clearTimeout_def)

lemma settled_reject_call:
  "cid < length (calls w) \<Longrightarrow>
   settled (calls (reject_call cid e w) ! c) =
     (if c = cid then reject e (settled (calls w ! cid)) else settled (calls w ! c))"
  by (simp add: reject_call_def nth_list_update)

lemma settled_resolve_call:
  "cid < length (calls w) \<Longrightarrow>
   settled (calls (resolve_call cid b w) ! c) =
     (if c = cid then resolve b (settled (calls w ! cid)) else settled (calls w ! c))"
  by (simp add: resolve_call_def nth_list_update)

lemma settled_clearTimeout:
  "settled (calls (clearTimeout cid w) ! c) = settled (calls w ! c)"
  by (cases "cid < length (calls w)"; cases "c = cid")
     (simp_all add: clearTimeout_def list_update_beyond)

lemma timer_clearTimeout:
  "cid < length (calls w) \<Longrightarrow> timer (calls (clearTimeout cid w) ! cid) = None"
  by (simp add: clearTimeout_def)

text \<open>The outcome of the onstop handler on a pending promise.\<close>

lemma onstop_handler_settled:
  assumes "cid < length (calls w)" and "settled (calls w ! cid) = Pending"
  shows "settled (calls (onstop_handler cid w) ! cid) =
     (if audioChunks w = [] then
        Rejected (new_Error ''No audio data recorded. Please try speaking louder or check your microphone.'')
      else if concat (map bytes (audioChunks w)) = [] then
        Rejected (new_Error ''Empty audio recording. Please try again.'')
      else Resolved \<lparr>bytes = concat (map bytes (audioChunks w)), btype = blob_type w\<rparr>)"
  using assms
  by (simp add: onstop_handler_def Let_def settled_reject_call settled_resolve_call
        cleanup_fields clearTimeout_fields settled_clearTimeout new_Blob_def blob_size_def
        blob_type_def split: option.splits)

lemma onstop_handler_released:
  "stream (onstop_handler cid w) = None \<and> mediaRecorder (onstop_handler cid w) = None \<and>
   audioChunks (onstop_handler cid w) = [] \<and> cleanups (onstop_handler cid w) = Suc (cleanups w)"
  by (simp add: onstop_handler_def Let_def reject_call_fields resolve_call_fields
        cleanup_fields clearTimeout_fields)

lemma stopRecording_recording:
  assumes "mediaRecorder w = Some rid" and "rid < length (recorders w)"
      and "state (recorders w ! rid) = recording"
  shows "stopRecording w =
     (length (calls w),
      w\<lparr>calls := calls w @ [\<lparr>settled = Pending, timer = Some 5000\<rparr>],
        recorders := (recorders w)[rid := (recorders w ! rid)
           \<lparr>onstop := Some (length (calls w)),
            onerror := StopOnError (length (calls w)), state := inactive\<rparr>]\<rparr>)"
  using assms by (simp add: stopRecording_def Let_def)

lemma reject_not_Pending: "reject e p \<noteq> Pending"
  by (cases p) simp_all

lemma resolve_not_Pending: "resolve v p \<noteq> Pending"
  by (cases p) simp_all

lemma call_reject_call:
  "calls (reject_call c e w) ! cid =
     (if c = cid \<and> cid < length (calls w)
      then (calls w ! cid)\<lparr>settled := reject e (settled (calls w ! cid))\<rparr>
      else calls w ! cid)"
  by (cases "c < length (calls w)")
     (auto simp: reject_call_def nth_list_update list_update_beyond)

lemma call_resolve_call:
  "calls (resolve_call c b w) ! cid =
     (if c = cid \<and> cid < length (calls w)
      then (calls w ! cid)\<lparr>settled := resolve b (settled (calls w ! cid))\<rparr>
      else calls w ! cid)"
  by (cases "c < length (calls w)")
     (auto simp: resolve_call_def nth_list_update list_update_beyond)

lemma call_clearTimeout:
  "calls (clearTimeout c w) ! cid =
     (if c = cid \<and> cid < length (calls w) then (calls w ! cid)\<lparr>timer := None\<rparr>
      else calls w ! cid)"
  by (cases "c < length (calls w)")
     (auto simp: clearTimeout_def nth_list_update list_update_beyond)

lemma length_calls_handle: "length (calls (handle e w)) = length (calls w)"
  by (cases e)
     (auto simp: ondataavailable_def onerror_start_def onerror_stop_def onstop_handler_def
        stop_timeout_def Let_def reject_call_fields resolve_call_fields clearTimeout_fields
        cleanup_fields split: onerror_handler.splits option.splits)

text \<open>
  A promise of \<^verbatim>\<open>stopRecording\<close> that is pending after an event was pending before it, and
  its timeout is as it was: every handler that clears or fires the timeout settles the
  promise.
\<close>

lemma handle_keeps_pending:
  assumes "cid < length (calls w)" and "settled (calls (handle e w) ! cid) = Pending"
  shows "calls (handle e w) ! cid = calls w ! cid"
proof (cases e)
  case (DataAvailable rid d)
  then show ?thesis by (simp add: ondataavailable_def)
next
  case (RecorderError rid m)
  then show ?thesis
    using assms
    by (auto simp: onerror_start_def onerror_stop_def call_reject_call call_clearTimeout
          cleanup_fields clearTimeout_fields reject_not_Pending Let_def
          split: onerror_handler.splits if_splits)
next
  case (RecorderStop rid)
  then show ?thesis
    using assms
    by (auto simp: onstop_handler_def Let_def call_reject_call call_resolve_call
          call_clearTimeout cleanup_fields clearTimeout_fields reject_not_Pending
          resolve_not_Pending split: option.splits if_splits)
next
  case (TimerFires c)
  then show ?thesis
    using assms
    by (auto simp: stop_timeout_def call_reject_call call_clearTimeout cleanup_fields
          clearTimeout_fields reject_not_Pending split: if_splits)
qed

lemma length_calls_run: "length (calls (run evs w)) = length (calls w)"
  by (induction evs arbitrary: w) (simp_all add: run_Nil run_Cons length_calls_handle)

lemma run_snoc: "run (evs @ [e]) w = handle e (run evs w)"
  by (simp add: run_append run_Cons run_Nil)

lemma run_keeps_pending:
  "cid < length (calls w) \<Longrightarrow> settled (calls (run evs w) ! cid) = Pending \<Longrightarrow>
   calls (run evs w) ! cid = calls w ! cid"
proof (induction evs rule: rev_induct)
  case Nil
  then show ?case by (simp add: run_Nil)
next
  case (snoc e evs)
  have len: "cid < length (calls (run evs w))"
    using snoc.prems(1) by (simp add: length_calls_run)
  from snoc.prems(2) have pend: "settled (calls (handle e (run evs w)) ! cid) = Pending"
    by (simp add: run_snoc)
  from handle_keeps_pending [OF len pend]
  have same: "calls (handle e (run evs w)) ! cid = calls (run evs w) ! cid" .
  with pend have "settled (calls (run evs w) ! cid) = Pending" by simp
  with snoc.IH snoc.prems(1) same show ?case by (simp add: run_snoc)
qed

lemma run_data_only:
  "list_all is_data evs \<Longrightarrow> \<exists>cs. run evs w = w\<lparr>audioChunks := cs\<rparr>"
proof (induction evs arbitrary: w)
  case Nil
  have "run [] w = w\<lparr>audioChunks := audioChunks w\<rparr>" by (simp add: run_Nil)
  then show ?case by blast
next
  case (Cons e evs)
  from Cons.prems obtain rid d where e: "e = DataAvailable rid d"
    by (cases e) simp_all
  have "\<exists>cs. handle e w = w\<lparr>audioChunks := cs\<rparr>"
  proof (cases "rid < length (recorders w) \<and> 0 < blob_size d")
    case True
    then have "handle e w = w\<lparr>audioChunks := audioChunks w @ [d]\<rparr>"
      by (simp add: e ondataavailable_def)
    then show ?thesis by blast
  next
    case False
    then have "handle e w = w\<lparr>audioChunks := audioChunks w\<rparr>"
      by (auto simp: e ondataavailable_def)
    then show ?thesis by blast
  qed
  then obtain cs where h: "handle e w = w\<lparr>audioChunks := cs\<rparr>" by blast
  from Cons.prems Cons.IH [of "w\<lparr>audioChunks := cs\<rparr>"] obtain cs' where
    "run evs (w\<lparr>audioChunks := cs\<rparr>) = w\<lparr>audioChunks := cs'\<rparr>" by auto
  with h have "run (e # evs) w = w\<lparr>audioChunks := cs'\<rparr>" by (simp add: run_Cons)
  then show ?case by blast
qed

text \<open>
  The handlers that settle a promise, and the \<^verbatim>\<open>catch\<close> block of \<^verbatim>\<open>startRecording\<close>, call
  \<^verbatim>\<open>cleanup\<close> once each. The \<^verbatim>\<open>onerror\<close> handler that \<^verbatim>\<open>startRecording\<close> installs does
  not call it.
\<close>

lemma cleanup_count_per_handler:
  "cleanups (onstop_handler cid w) = Suc (cleanups w)"
  "cleanups (onerror_stop cid m w) = Suc (cleanups w)"
  "cleanups (stop_timeout cid w) = Suc (cleanups w)"
  "cleanups (snd (start_catch e w)) = Suc (cleanups w)"
  "cleanups (onerror_start m w) = cleanups w"
  by (simp_all add: onstop_handler_def onerror_stop_def stop_timeout_def start_catch_def
        onerror_start_def Let_def reject_call_fields resolve_call_fields clearTimeout_fields
        cleanup_fields)

text \<open>
  An event leaves the stream reference and the tracks alone, or it runs \<^verbatim>\<open>cleanup\<close> once.
\<close>

lemma handle_streams:
  "(stream (handle e w) = stream w \<and> streams (handle e w) = streams w) \<or>
   (stream (handle e w) = None \<and> streams (handle e w) = streams (cleanup w))"
proof (cases e)
  case (DataAvailable rid d)
  then show ?thesis by (simp add: ondataavailable_def)
next
  case (RecorderError rid m)
  then show ?thesis
    by (simp add: Let_def onerror_start_def onerror_stop_def reject_call_fields
          clearTimeout_fields cleanup_fields cleanup_streams
          split: onerror_handler.splits option.splits)
next
  case (RecorderStop rid)
  then show ?thesis
    by (simp add: onstop_handler_def Let_def reject_call_fields resolve_call_fields
          clearTimeout_fields cleanup_fields cleanup_streams split: option.splits)
next
  case (TimerFires c)
  then show ?thesis
    by (simp add: stop_timeout_def reject_call_fields clearTimeout_fields cleanup_fields
          cleanup_streams split: option.splits)
qed

lemma length_streams_cleanup: "length (streams (cleanup w)) = length (streams w)"
  by (simp add: cleanup_streams split: option.splits)

text \<open>
  After any events, the stream of a session is still referenced and untouched, or the
  reference is null and each track of the stream was stopped once.
\<close>

lemma run_streams:
  assumes "stream w = Some sid" and "sid < length (streams w)"
  shows "sid < length (streams (run evs w)) \<and>
         ((stream (run evs w) = Some sid \<and> streams (run evs w) ! sid = streams w ! sid) \<or>
          (stream (run evs w) = None \<and>
           streams (run evs w) ! sid = map track_stop (streams w ! sid)))"
proof (induction evs rule: rev_induct)
  case Nil
  from assms show ?case by (simp add: run_Nil)
next
  case (snoc e evs)
  let ?v = "run evs w"
  from snoc.IH have len: "sid < length (streams ?v)" by simp
  from handle_streams [of e ?v] show ?case
  proof
    assume "stream (handle e ?v) = stream ?v \<and> streams (handle e ?v) = streams ?v"
    with snoc.IH show ?thesis by (simp add: run_snoc)
  next
    assume c: "stream (handle e ?v) = None \<and> streams (handle e ?v) = streams (cleanup ?v)"
    from snoc.IH have "streams (cleanup ?v) ! sid = map track_stop (streams w ! sid)"
      using len by (auto simp: cleanup_streams)
    with c len show ?thesis by (simp add: run_snoc length_streams_cleanup)
  qed
qed

lemma run_data_pending:
  assumes "cid < length (calls w)" and "list_all is_data evs"
  shows "calls (run evs w) ! cid = calls w ! cid"
proof -
  from run_data_only [OF assms(2)] obtain cs where "run evs w = w\<lparr>audioChunks := cs\<rparr>"
    by blast
  then show ?thesis by simp
qed

section \<open>Every state the class reaches satisfies wf\<close>

lemma wf_new: "wf new_VoiceRecorder"
  by (simp add: wf_def new_VoiceRecorder_def)

lemma wf_cleanup: "wf w \<Longrightarrow> wf (cleanup w)"
  by (simp add: wf_def cleanup_fields cleanup_streams split: option.splits)

lemma handler_ok_mono: "handler_ok n r \<Longrightarrow> n \<le> m \<Longrightarrow> handler_ok m r"
  by (auto simp: handler_ok_def split: option.splits onerror_handler.splits)

lemma wf_reject_call: "wf w \<Longrightarrow> wf (reject_call cid e w)"
  by (simp add: wf_def reject_call_fields split: option.splits)

lemma wf_resolve_call: "wf w \<Longrightarrow> wf (resolve_call cid b w)"
  by (simp add: wf_def resolve_call_fields split: option.splits)

lemma wf_clearTimeout: "wf w \<Longrightarrow> wf (clearTimeout cid w)"
  by (simp add: wf_def clearTimeout_fields split: option.splits)

lemma wf_startRecording: "wf w \<Longrightarrow> wf (snd (startRecording dev w))"
proof -
  assume w: "wf w"
  have grow: "wf (w\<lparr>streams := streams w @ [tracks], stream := Some (length (streams w))\<rparr>)"
    for tracks
    using w by (simp add: wf_def split: option.splits)
  have grow2: "wf (w\<lparr>streams := streams w @ [tracks], stream := Some (length (streams w)),
                    recorders := recorders w @
                      [\<lparr>rec_stream = length (streams w), mimeType = m, state = st,
                        timeslice = ts, onstop = None, onerror = StartOnError\<rparr>],
                    mediaRecorder := Some (length (recorders w)), audioChunks := []\<rparr>)"
    for tracks m st ts
    using w by (simp add: wf_def handler_ok_def split: option.splits)
  show ?thesis
    using w grow grow2
    by (auto simp: startRecording_cases wf_cleanup split: sum.splits option.splits)
qed

lemma list_all_update:
  "list_all P xs \<Longrightarrow> P x \<Longrightarrow> list_all P (xs[i := x])"
  by (auto simp: list_all_iff dest: set_update_subset_insert [THEN subsetD])

lemma wf_stopRecording: "wf w \<Longrightarrow> wf (snd (stopRecording w))"
proof (cases "mediaRecorder w")
  case None
  assume "wf w"
  then show ?thesis
    using None
    by (auto simp: stopRecording_def Let_def wf_def list_all_iff
          intro: handler_ok_mono split: option.splits)
next
  case (Some rid)
  assume w: "wf w"
  let ?n = "length (calls w)"
  let ?w1 = "w\<lparr>calls := calls w @ [\<lparr>settled = Pending, timer = Some 5000\<rparr>],
                recorders := (recorders w)[rid := (recorders w ! rid)
                   \<lparr>onstop := Some ?n, onerror := StopOnError ?n\<rparr>]\<rparr>"
  have old: "list_all (handler_ok (Suc ?n)) (recorders w)"
    using w by (auto simp: wf_def list_all_iff intro: handler_ok_mono)
  have new: "handler_ok (Suc ?n) ((recorders w ! rid)\<lparr>onstop := Some ?n, onerror := StopOnError ?n\<rparr>)"
    by (simp add: handler_ok_def)
  have new': "handler_ok (Suc ?n)
      ((recorders w ! rid)\<lparr>onstop := Some ?n, onerror := StopOnError ?n, state := inactive\<rparr>)"
    by (simp add: handler_ok_def)
  have w1: "wf ?w1"
    using w old new by (simp add: wf_def list_all_update split: option.splits)
  show ?thesis
  proof (cases "state (recorders w ! rid) = recording")
    case True
    have "rid < length (recorders w)" using w Some by (simp add: wf_def)
    then show ?thesis
      using Some True w old new'
      by (simp add: stopRecording_def Let_def wf_def list_all_update split: option.splits)
  next
    case False
    then show ?thesis
      using Some w1
      by (simp add: stopRecording_def Let_def wf_reject_call wf_cleanup wf_clearTimeout)
  qed
qed

lemma wf_handle: "wf w \<Longrightarrow> wf (handle e w)"
proof (cases e)
  case (DataAvailable rid d)
  assume "wf w"
  then show ?thesis
    using DataAvailable by (simp add: ondataavailable_def wf_def split: option.splits)
next
  case (RecorderError rid m)
  assume w: "wf w"
  have h: "handler_ok (length (calls w)) ((recorders w ! rid)\<lparr>state := inactive\<rparr>)"
    if "rid < length (recorders w)"
    using w that by (simp add: wf_def list_all_length handler_ok_def)
  have w1: "wf (w\<lparr>recorders := (recorders w)[rid := (recorders w ! rid)\<lparr>state := inactive\<rparr>]\<rparr>)"
    if "rid < length (recorders w)"
    using w h [OF that] by (simp add: wf_def list_all_update split: option.splits)
  have thrown: "wf (onerror_start m v)" if "wf v" for v
    using that by (simp add: onerror_start_def wf_def split: option.splits)
  show ?thesis
    using RecorderError w w1
    by (auto simp: Let_def onerror_stop_def wf_reject_call wf_cleanup wf_clearTimeout thrown
          split: onerror_handler.splits)
next
  case (RecorderStop rid)
  assume "wf w"
  then show ?thesis
    using RecorderStop
    by (auto simp: onstop_handler_def Let_def wf_reject_call wf_resolve_call wf_cleanup
          wf_clearTimeout split: option.splits)
next
  case (TimerFires cid)
  assume "wf w"
  then show ?thesis
    using TimerFires
    by (auto simp: stop_timeout_def wf_reject_call wf_cleanup wf_clearTimeout)
qed

lemma wf_run: "wf w \<Longrightarrow> wf (run evs w)"
  by (induction evs arbitrary: w) (simp_all add: run_Nil run_Cons wf_handle)

section \<open>Facts about trim and the recognizer\<close>

lemma last_dropWhile: "dropWhile P xs \<noteq> [] \<Longrightarrow> last (dropWhile P xs) = last xs"
  by (induction xs) (auto split: if_splits)

lemma trim_ends:
  assumes "trim s \<noteq> []"
  shows "\<not> is_ws (hd (trim s))" and "\<not> is_ws (last (trim s))"
proof -
  let ?u = "dropWhile is_ws s"
  let ?d = "dropWhile is_ws (rev ?u)"
  from assms have d: "?d \<noteq> []" by (simp add: trim_def)
  have u: "?u \<noteq> []"
  proof
    assume e: "?u = []"
    have "?d = []" unfolding e by simp
    with d show False by simp
  qed
  from d have "\<not> is_ws (hd ?d)" by (rule hd_dropWhile)
  then show "\<not> is_ws (last (trim s))"
    using d by (simp add: trim_def last_rev)
  from d have "last ?d = last (rev ?u)" by (rule last_dropWhile)
  also have "\<dots> = hd ?u" using u by (simp add: last_rev)
  finally have "hd (trim s) = hd ?u" using d by (simp add: trim_def hd_rev)
  moreover from u have "\<not> is_ws (hd ?u)" by (rule hd_dropWhile)
  ultimately show "\<not> is_ws (hd (trim s))" by simp
qed

lemma trim_fixed:
  assumes "t \<noteq> []" and "\<not> is_ws (hd t)" and "\<not> is_ws (last t)"
  shows "trim t = t"
proof -
  from assms(1,2) have "dropWhile is_ws t = t" by (cases t) simp_all
  moreover from assms(1,3) have "dropWhile is_ws (rev t) = rev t"
    by (cases "rev t") (simp_all add: last_rev [symmetric] hd_rev)
  ultimately show ?thesis by (simp add: trim_def)
qed

lemma trim_idem: "trim (trim s) = trim s"
proof (cases "trim s = []")
  case True
  have "trim [] = []" by (simp add: trim_def)
  with True show ?thesis by simp
next
  case False
  from trim_fixed [OF False trim_ends [OF False]] show ?thesis .
qed

lemma trim_blank: "list_all is_ws s \<Longrightarrow> trim s = []"
proof -
  assume "list_all is_ws s"
  then have e: "dropWhile is_ws s = []" by (simp add: list_all_iff)
  show "trim s = []" unfolding trim_def e by simp
qed

lemma trim_not_blank: "trim s \<noteq> [] \<Longrightarrow> \<not> list_all is_ws (trim s)"
proof -
  assume a: "trim s \<noteq> []"
  then have "hd (trim s) \<in> set (trim s)" by simp
  with trim_ends(1) [OF a] show ?thesis by (auto simp: list_all_iff)
qed

lemma onresult_append:
  "onresult ev acc =
     acc @ concat (map transcript (filter isFinal (drop (resultIndex ev) (results ev))))"
proof -
  have "foldl (\<lambda>a r. if isFinal r then a @ transcript r else a) acc rs =
        acc @ concat (map transcript (filter isFinal rs))"
    for rs :: "recognition_result list"
    by (induction rs arbitrary: acc) simp_all
  then show ?thesis by (simp add: onresult_def)
qed

lemma listen_run_Cons: "listen_run (e # es) s = listen_run es (listen_handle e s)"
  by (simp add: listen_run_def)

lemma listen_run_Nil: "listen_run [] s = s"
  by (simp add: listen_run_def)

lemma listen_run_append: "listen_run (xs @ ys) s = listen_run ys (listen_run xs s)"
  by (simp add: listen_run_def)

lemma listen_run_results:
  "installed s = Some cid \<Longrightarrow> cid < length (lcalls s) \<Longrightarrow>
   listen_run (map OnResult evs) s =
     s\<lparr>lcalls := (lcalls s)[cid := (lcalls s ! cid)
          \<lparr>finalTranscript := finalTranscript (lcalls s ! cid) @
               concat (map transcript (final_entries evs))\<rparr>]\<rparr>"
proof (induction evs arbitrary: s)
  case Nil
  then show ?case by (simp add: listen_run_Nil final_entries_def)
next
  case (Cons ev evs)
  let ?s' = "listen_handle (OnResult ev) s"
  have s': "?s' = s\<lparr>lcalls := (lcalls s)[cid := (lcalls s ! cid)
               \<lparr>finalTranscript := onresult ev (finalTranscript (lcalls s ! cid))\<rparr>]\<rparr>"
    using Cons.prems by simp
  have i: "installed ?s' = Some cid" and l: "cid < length (lcalls ?s')"
    using Cons.prems by (simp_all add: s')
  show ?case
    using Cons.prems
    by (simp add: listen_run_Cons Cons.IH [OF i l] del: listen_handle.simps)
       (simp add: s' onresult_append final_entries_def)
qed

section \<open>Facts about the conversion and the response\<close>

lemma conv_run_Cons: "conv_run msg (e # es) c = conv_run msg es (conv_handle msg e c)"
  by (simp add: conv_run_def)

lemma conv_run_Nil: "conv_run msg [] c = c"
  by (simp add: conv_run_def)

lemma conv_run_snoc: "conv_run msg (es @ [e]) c = conv_handle msg e (conv_run msg es c)"
  by (simp add: conv_run_def)

text \<open>Without a reader and without a timeout, no event changes the conversion.\<close>

lemma conv_run_idle:
  "reader c = None \<Longrightarrow> ctimer c = None \<Longrightarrow> conv_run msg evs c = c"
proof (induction evs)
  case Nil
  then show ?case by (simp add: conv_run_Nil)
next
  case (Cons e evs)
  then have "conv_handle msg e c = c" by (cases e) simp_all
  with Cons show ?case by (simp add: conv_run_Cons)
qed

lemma onloadend_settles: "cpromise (onloadend result c) \<noteq> Pending"
  by (auto simp: onloadend_def Let_def reject_not_Pending resolve_not_Pending
        split: option.splits list.splits)

text \<open>Every event that has an effect settles the conversion.\<close>

lemma conv_handle_keeps_pending:
  "cpromise (conv_handle msg e c) = Pending \<Longrightarrow> conv_handle msg e c = c"
proof (cases e)
  case (LoadEnd result)
  assume "cpromise (conv_handle msg e c) = Pending"
  with LoadEnd onloadend_settles [of result c] show ?thesis
    by (cases "reader c") simp_all
next
  case ReaderError
  assume "cpromise (conv_handle msg e c) = Pending"
  with ReaderError show ?thesis
    by (cases "reader c") (simp_all add: reader_onerror_def reject_not_Pending)
next
  case ConvTimerFires
  assume "cpromise (conv_handle msg e c) = Pending"
  with ConvTimerFires show ?thesis
    by (cases "ctimer c") (simp_all add: conversion_timeout_def reject_not_Pending)
qed

lemma conv_run_keeps_pending:
  "cpromise (conv_run msg evs c) = Pending \<Longrightarrow> conv_run msg evs c = c"
proof (induction evs rule: rev_induct)
  case Nil
  then show ?case by (simp add: conv_run_Nil)
next
  case (snoc e evs)
  from snoc.prems have p: "cpromise (conv_handle msg e (conv_run msg evs c)) = Pending"
    by (simp add: conv_run_snoc)
  from conv_handle_keeps_pending [OF p]
  have same: "conv_handle msg e (conv_run msg evs c) = conv_run msg evs c" .
  with p have "cpromise (conv_run msg evs c) = Pending" by simp
  with snoc.IH same show ?case by (simp add: conv_run_snoc)
qed

lemma fetch_not_in_catch_toast: "Fetch p \<notin> set (catch_toast e)"
  by (cases e) simp_all

lemma fetch_not_in_handle_response: "Fetch p \<notin> set (handle_response nm resp)"
  by (auto simp: handle_response_def no_speech_toast_def fetch_not_in_catch_toast
        split: sum.splits jdata.splits option.splits if_splits)

lemma transcription_not_in_catch_toast: "OnTranscription t \<notin> set (catch_toast e)"
  by (cases e) simp_all

lemma handle_response_transcription:
  "OnTranscription t \<in> set (handle_response nm resp) \<Longrightarrow>
     \<exists>text err. ok resp \<and> json resp = Inr (JObj (Some text) err) \<and> trim text \<noteq> [] \<and>
       t = trim text"
  by (cases "json resp")
     (auto simp: handle_response_def no_speech_toast_def transcription_not_in_catch_toast
        split: jdata.splits option.splits if_splits)

lemma handleStopRecording_transcription:
  "OnTranscription t \<in> set (handleStopRecording env) \<Longrightarrow>
     \<exists>resp. fetch_result env = Inr resp \<and>
       OnTranscription t \<in> set (handle_response (null_error_message env) resp)"
  by (auto simp: handleStopRecording_def Let_def transcription_not_in_catch_toast
        split: option.splits promise.splits sum.splits if_splits)

section \<open>The claims about VoiceRecorder\<close>

text \<open>
  C1, as the code has it. \<^verbatim>\<open>startRecording\<close> has no guard against a session that is
  recording. Called on one, it asks for the microphone again, and its result is fixed by
  the device:
  \<^item> it succeeds exactly when the microphone is granted, some candidate format is
    supported and \<^verbatim>\<open>start\<close> does not throw; the class then refers to the new stream and
    the new recorder, its chunk sequence is empty, the tracks of the earlier stream are
    as they were, and \<^verbatim>\<open>cleanup\<close> has not run;
  \<^item> when \<^verbatim>\<open>getUserMedia\<close> rejects with \<open>e\<close>, it fails with what the \<^verbatim>\<open>catch\<close> block makes
    of \<open>e\<close>, and the state is that of \<^verbatim>\<open>cleanup\<close> on the session that was recording;
  \<^item> when the microphone is granted and no candidate is supported, it fails with
    \<^verbatim>\<open>Failed to access microphone: No supported audio format found on this device\<close>;
  \<^item> when \<^verbatim>\<open>start\<close> throws \<open>e\<close>, it fails with what the \<^verbatim>\<open>catch\<close> block makes of \<open>e\<close>.
  Whenever it fails, \<^verbatim>\<open>cleanup\<close> has run once: the recorder reference and the stream
  reference are null and the chunk sequence is empty. Either way the recorder reference
  is no longer the one of the session that was recording.
\<close>

theorem start_while_recording:
  assumes "isRecording w" and "wf w"
  shows "((fst (startRecording dev w) = Inr ()) =
            ((\<exists>tracks. getUserMedia dev = Inr tracks) \<and>
             (\<exists>m\<in>set mimeTypes. isTypeSupported dev m) \<and> start_throws dev = None))
       \<and> (\<forall>tracks. getUserMedia dev = Inr tracks \<and>
              (\<exists>m\<in>set mimeTypes. isTypeSupported dev m) \<and> start_throws dev = None \<longrightarrow>
              fst (startRecording dev w) = Inr () \<and>
              mediaRecorder (snd (startRecording dev w)) = Some (length (recorders w)) \<and>
              stream (snd (startRecording dev w)) = Some (length (streams w)) \<and>
              streams (snd (startRecording dev w)) = streams w @ [tracks] \<and>
              audioChunks (snd (startRecording dev w)) = [] \<and>
              isRecording (snd (startRecording dev w)) \<and>
              cleanups (snd (startRecording dev w)) = cleanups w)
       \<and> (\<forall>e. getUserMedia dev = Inl e \<longrightarrow>
              fst (startRecording dev w) = Inl (start_rethrow e) \<and>
              snd (startRecording dev w) = cleanup w)
       \<and> (\<forall>tracks. getUserMedia dev = Inr tracks \<and>
              (\<forall>m\<in>set mimeTypes. \<not> isTypeSupported dev m) \<longrightarrow>
              fst (startRecording dev w) =
                Inl (new_Error ''Failed to access microphone: No supported audio format found on this device''))
       \<and> (\<forall>tracks e. getUserMedia dev = Inr tracks \<and>
              (\<exists>m\<in>set mimeTypes. isTypeSupported dev m) \<and> start_throws dev = Some e \<longrightarrow>
              fst (startRecording dev w) = Inl (start_rethrow e))
       \<and> (fst (startRecording dev w) \<noteq> Inr () \<longrightarrow>
              mediaRecorder (snd (startRecording dev w)) = None \<and>
              stream (snd (startRecording dev w)) = None \<and>
              audioChunks (snd (startRecording dev w)) = [] \<and>
              \<not> isRecording (snd (startRecording dev w)) \<and>
              cleanups (snd (startRecording dev w)) = Suc (cleanups w))
       \<and> mediaRecorder (snd (startRecording dev w)) \<noteq> mediaRecorder w"
proof -
  from assms obtain rid where rid: "mediaRecorder w = Some rid" "rid < length (recorders w)"
    by (auto simp: isRecording_iff wf_def)
  let ?sel = "select_mime (isTypeSupported dev) mimeTypes"
  have sel: "(?sel = []) = (\<forall>m\<in>set mimeTypes. \<not> isTypeSupported dev m)"
    by (rule select_mime_empty_iff)
  show ?thesis
  proof (cases "getUserMedia dev")
    case (Inl e)
    then show ?thesis
      using rid by (simp add: startRecording_cases cleanup_fields isRecording_def)
  next
    case (Inr tracks)
    show ?thesis
    proof (cases "?sel = []")
      case True
      with sel have none: "\<forall>m\<in>set mimeTypes. \<not> isTypeSupported dev m" by simp
      have res: "startRecording dev w =
          (Inl (new_Error ''Failed to access microphone: No supported audio format found on this device''),
           cleanup (w\<lparr>streams := streams w @ [tracks], stream := Some (length (streams w))\<rparr>))"
        using Inr True by (simp add: startRecording_cases)
      show ?thesis
        unfolding res using rid Inr none
        by (simp add: cleanup_fields isRecording_def)
    next
      case False
      with sel have some: "\<exists>m\<in>set mimeTypes. isTypeSupported dev m" by simp
      show ?thesis
      proof (cases "start_throws dev")
        case None
        have res: "startRecording dev w =
            (Inr (),
             w\<lparr>streams := streams w @ [tracks], stream := Some (length (streams w)),
               recorders := recorders w @
                 [\<lparr>rec_stream = length (streams w), mimeType = ?sel,
                   state = recording, timeslice = Some 1000, onstop = None,
                   onerror = StartOnError\<rparr>],
               mediaRecorder := Some (length (recorders w)), audioChunks := []\<rparr>)"
          using Inr False None by (simp add: startRecording_cases)
        show ?thesis
          unfolding res using rid Inr some None
          by (simp add: isRecording_def)
      next
        case (Some e)
        have res: "startRecording dev w =
            (Inl (start_rethrow e),
             cleanup (w\<lparr>streams := streams w @ [tracks], stream := Some (length (streams w)),
                        recorders := recorders w @
                          [\<lparr>rec_stream = length (streams w), mimeType = ?sel,
                            state = inactive, timeslice = None, onstop = None,
                            onerror = StartOnError\<rparr>],
                        mediaRecorder := Some (length (recorders w)), audioChunks := []\<rparr>))"
          using Inr False Some by (simp add: startRecording_cases)
        show ?thesis
          unfolding res using rid Inr some Some
          by (auto simp: cleanup_fields isRecording_def)
      qed
    qed
  qed
qed

theorem start_while_recording_witness:
  "isRecording recording_session \<and> wf recording_session \<and>
   getUserMedia webm_device = Inr [mic_track] \<and>
   filter (isTypeSupported webm_device) mimeTypes = [''audio/webm''] \<and>
   start_throws webm_device = None \<and>
   fst (startRecording webm_device recording_session) = Inr () \<and>
   mediaRecorder (snd (startRecording webm_device recording_session)) \<noteq>
     mediaRecorder recording_session \<and>
   getUserMedia denied_device = Inl (JsError ''NotAllowedError'' ''Permission denied'') \<and>
   fst (startRecording denied_device recording_session) =
     Inl (start_rethrow (JsError ''NotAllowedError'' ''Permission denied'')) \<and>
   snd (startRecording denied_device recording_session) = cleanup recording_session"
proof -
  have h1: "isRecording recording_session" by code_simp
  have h2: "wf recording_session" by code_simp
  have k1: "getUserMedia webm_device = Inr [mic_track]"
    by (simp add: webm_device_def)
  have k2: "\<exists>m\<in>set mimeTypes. isTypeSupported webm_device m"
    by (simp add: webm_device_def mimeTypes_def)
  have k3: "filter (isTypeSupported webm_device) mimeTypes = [''audio/webm'']"
    by (simp add: webm_device_def mimeTypes_def)
  have k4: "start_throws webm_device = None"
    by (simp add: webm_device_def)
  have d1: "getUserMedia denied_device = Inl (JsError ''NotAllowedError'' ''Permission denied'')"
    by (simp add: denied_device_def)
  have a: "fst (startRecording webm_device recording_session) = Inr ()"
    using start_while_recording [OF h1 h2, of webm_device, THEN conjunct2, THEN conjunct1]
      k1 k2 k4 by blast
  have b: "mediaRecorder (snd (startRecording webm_device recording_session)) \<noteq>
     mediaRecorder recording_session"
    using start_while_recording [OF h1 h2, of webm_device] by blast
  have c: "fst (startRecording denied_device recording_session) =
       Inl (start_rethrow (JsError ''NotAllowedError'' ''Permission denied'')) \<and>
     snd (startRecording denied_device recording_session) = cleanup recording_session"
    using start_while_recording [OF h1 h2, of denied_device,
        THEN conjunct2, THEN conjunct2, THEN conjunct1] d1 by blast
  from c show ?thesis
    by (intro conjI) (simp_all only: h1 h2 k1 k3 k4 a b d1 not_False_eq_True)
qed

text \<open>
  C1 as stated fails: on the sample session, which is recording and holds one chunk, a
  second \<^verbatim>\<open>startRecording\<close> succeeds and replaces the recorder, the stream and the chunk
  sequence.
\<close>

theorem start_while_recording_counterexample:
  "isRecording recording_session \<and>
   fst (startRecording webm_device recording_session) = Inr () \<and>
   mediaRecorder (snd (startRecording webm_device recording_session)) \<noteq>
     mediaRecorder recording_session \<and>
   stream (snd (startRecording webm_device recording_session)) \<noteq> stream recording_session \<and>
   audioChunks (snd (startRecording webm_device recording_session)) \<noteq>
     audioChunks recording_session"
  by code_simp

text \<open>
  C2 fails on the code. On the sample session, which is recording, an \<^verbatim>\<open>error\<close> event of
  the recorder reaches the handler that \<^verbatim>\<open>startRecording\<close> installed: the handler throws
  and \<^verbatim>\<open>cleanup\<close> does not run, so the track is not stopped and the stream, the
  recorder and the chunk stay referenced. The same event after \<^verbatim>\<open>stopRecording\<close> reaches
  the handler installed there, which does run \<^verbatim>\<open>cleanup\<close> once.
\<close>

theorem recording_error_skips_cleanup:
  "isRecording recording_session \<and>
   cleanups recording_session = 0 \<and>
   cleanups (handle (RecorderError 0 None) recording_session) = 0 \<and>
   stream (handle (RecorderError 0 None) recording_session) = Some 0 \<and>
   streams (handle (RecorderError 0 None) recording_session) = [[mic_track]] \<and>
   mediaRecorder (handle (RecorderError 0 None) recording_session) = Some 0 \<and>
   audioChunks (handle (RecorderError 0 None) recording_session) = [chunk_a] \<and>
   uncaught (handle (RecorderError 0 None) recording_session) =
     [new_Error ''Recording failed: undefined''] \<and>
   cleanups (handle (RecorderError 0 None) stopping_session) = 1 \<and>
   streams (handle (RecorderError 0 None) stopping_session) = [[track_stop mic_track]]"
  by code_simp

text \<open>
  C3, as the code has it. \<^verbatim>\<open>startRecording\<close> asks for the microphone first and negotiates
  the format afterwards. When the microphone is granted and no candidate is supported,
  the call fails with the message \<^verbatim>\<open>No supported audio format found on this device\<close>
  behind the prefix of its \<^verbatim>\<open>catch\<close> block, no recorder is created, and the stream that
  was acquired is released by \<^verbatim>\<open>cleanup\<close>: each of its tracks is stopped and the stream
  reference is null. When the microphone is granted and some candidate is supported,
  exactly one recorder is created, with the first supported candidate in the order of
  the list; it is the current recorder if \<^verbatim>\<open>start\<close> does not throw.
\<close>

theorem format_negotiation:
  assumes "getUserMedia dev = Inr tracks"
  shows "((\<forall>m\<in>set mimeTypes. \<not> isTypeSupported dev m) \<longrightarrow>
            fst (startRecording dev w) =
              Inl (new_Error ''Failed to access microphone: No supported audio format found on this device'') \<and>
            recorders (snd (startRecording dev w)) = recorders w \<and>
            mediaRecorder (snd (startRecording dev w)) = None \<and>
            streams (snd (startRecording dev w)) = streams w @ [map track_stop tracks] \<and>
            stream (snd (startRecording dev w)) = None)
       \<and> ((\<exists>m\<in>set mimeTypes. isTypeSupported dev m) \<longrightarrow>
            (\<exists>r pre post.
               recorders (snd (startRecording dev w)) = recorders w @ [r] \<and>
               mimeTypes = pre @ mimeType r # post \<and>
               isTypeSupported dev (mimeType r) \<and>
               (\<forall>x\<in>set pre. \<not> isTypeSupported dev x) \<and>
               (start_throws dev = None \<longrightarrow>
                  fst (startRecording dev w) = Inr () \<and>
                  mediaRecorder (snd (startRecording dev w)) = Some (length (recorders w)))))"
proof (intro conjI impI)
  assume none: "\<forall>m\<in>set mimeTypes. \<not> isTypeSupported dev m"
  then have sel: "select_mime (isTypeSupported dev) mimeTypes = []"
    by (rule select_mime_none)
  show "fst (startRecording dev w) =
          Inl (new_Error ''Failed to access microphone: No supported audio format found on this device'')"
    using assms sel by (simp add: startRecording_cases)
  show "recorders (snd (startRecording dev w)) = recorders w"
    using assms sel by (simp add: startRecording_cases cleanup_fields)
  show "mediaRecorder (snd (startRecording dev w)) = None"
    using assms sel by (simp add: startRecording_cases cleanup_fields)
  show "streams (snd (startRecording dev w)) = streams w @ [map track_stop tracks]"
    using assms sel by (simp add: startRecording_cases cleanup_streams)
  show "stream (snd (startRecording dev w)) = None"
    using assms sel by (simp add: startRecording_cases cleanup_fields)
next
  assume "\<exists>m\<in>set mimeTypes. isTypeSupported dev m"
  then have sel: "select_mime (isTypeSupported dev) mimeTypes \<noteq> []"
    using select_mime_some mimeTypes_nonempty by blast
  from select_mime_first [OF sel] obtain pre post where
    first: "mimeTypes = pre @ select_mime (isTypeSupported dev) mimeTypes # post"
      "isTypeSupported dev (select_mime (isTypeSupported dev) mimeTypes)"
      "\<forall>x\<in>set pre. \<not> isTypeSupported dev x"
    by blast
  define st where "st = (if start_throws dev = None then recording else inactive)"
  define ts where "ts = (if start_throws dev = None then Some (1000::nat) else None)"
  define r where "r = \<lparr>rec_stream = length (streams w),
      mimeType = select_mime (isTypeSupported dev) mimeTypes, state = st, timeslice = ts,
      onstop = None, onerror = StartOnError\<rparr>"
  have rec: "recorders (snd (startRecording dev w)) = recorders w @ [r]"
    using assms sel
    by (cases "start_throws dev")
       (simp_all add: startRecording_cases cleanup_fields r_def st_def ts_def)
  have ok: "start_throws dev = None \<longrightarrow>
      fst (startRecording dev w) = Inr () \<and>
      mediaRecorder (snd (startRecording dev w)) = Some (length (recorders w))"
    using assms sel by (simp add: startRecording_cases)
  have mt: "mimeType r = select_mime (isTypeSupported dev) mimeTypes"
    by (simp add: r_def)
  show "\<exists>r pre post.
          recorders (snd (startRecording dev w)) = recorders w @ [r] \<and>
          mimeTypes = pre @ mimeType r # post \<and>
          isTypeSupported dev (mimeType r) \<and>
          (\<forall>x\<in>set pre. \<not> isTypeSupported dev x) \<and>
          (start_throws dev = None \<longrightarrow>
             fst (startRecording dev w) = Inr () \<and>
             mediaRecorder (snd (startRecording dev w)) = Some (length (recorders w)))"
    using rec first ok mt by metis
qed

theorem format_negotiation_witness:
  "getUserMedia no_format_device = Inr [mic_track] \<and>
   filter (isTypeSupported no_format_device) mimeTypes = [] \<and>
   recorders (snd (startRecording no_format_device new_VoiceRecorder)) = recorders new_VoiceRecorder \<and>
   streams (snd (startRecording no_format_device new_VoiceRecorder)) =
     streams new_VoiceRecorder @ [map track_stop [mic_track]] \<and>
   getUserMedia webm_device = Inr [mic_track] \<and>
   filter (isTypeSupported webm_device) mimeTypes = [''audio/webm''] \<and>
   start_throws webm_device = None \<and>
   fst (startRecording webm_device new_VoiceRecorder) = Inr ()"
proof -
  have h1: "getUserMedia no_format_device = Inr [mic_track]"
    by (simp add: no_format_device_def)
  have h2: "\<forall>m\<in>set mimeTypes. \<not> isTypeSupported no_format_device m"
    by (simp add: no_format_device_def)
  have h3: "filter (isTypeSupported no_format_device) mimeTypes = []"
    by (simp add: no_format_device_def)
  have a: "recorders (snd (startRecording no_format_device new_VoiceRecorder)) =
        recorders new_VoiceRecorder \<and>
      streams (snd (startRecording no_format_device new_VoiceRecorder)) =
        streams new_VoiceRecorder @ [map track_stop [mic_track]]"
    using format_negotiation [OF h1, of new_VoiceRecorder, THEN conjunct1] h2 by blast
  have k1: "getUserMedia webm_device = Inr [mic_track]"
    by (simp add: webm_device_def)
  have k2: "\<exists>m\<in>set mimeTypes. isTypeSupported webm_device m"
    by (simp add: webm_device_def mimeTypes_def)
  have k3: "filter (isTypeSupported webm_device) mimeTypes = [''audio/webm'']"
    by (simp add: webm_device_def mimeTypes_def)
  have k4: "start_throws webm_device = None"
    by (simp add: webm_device_def)
  have b: "fst (startRecording webm_device new_VoiceRecorder) = Inr ()"
    using format_negotiation [OF k1, of new_VoiceRecorder, THEN conjunct2] k2 k4 by blast
  from a show ?thesis
    by (intro conjI) (simp_all only: h1 h3 k1 k3 k4 b)
qed

text \<open>
  C3 as stated fails: on a device that grants the microphone and supports no candidate,
  a stream is acquired (and then stopped) although the call fails.
\<close>

theorem format_negotiation_counterexample:
  "filter (isTypeSupported no_format_device) mimeTypes = [] \<and>
   streams new_VoiceRecorder = [] \<and>
   streams (snd (startRecording no_format_device new_VoiceRecorder)) = [[track_stop mic_track]]"
  by code_simp

text \<open>
  C4. \<^verbatim>\<open>stopRecording\<close> is called on a session that is recording, and when the timeout
  of 5000 ms fires its promise is still pending: the \<^verbatim>\<open>stop\<close> event has not fired, and
  no \<^verbatim>\<open>error\<close> event has settled the promise either. Then the promise rejects with
  \<^verbatim>\<open>Recording stop timeout - please try again\<close>, and the timeout callback runs \<^verbatim>\<open>cleanup\<close>:
  the stream reference, the recorder reference and the chunk sequence are cleared, and
  every track of the session's stream has been stopped. The promise cannot stay
  unsettled: whatever events arrive after \<^verbatim>\<open>stopRecording\<close>, it is never pending without
  its timeout armed. \<^verbatim>\<open>dataavailable\<close> events alone leave it pending.
\<close>

theorem stop_timeout_path:
  assumes "isRecording w" and "wf w" and "stream w = Some sid"
      and "stopRecording w = (cid, w1)"
      and "settled (calls (run evs w1) ! cid) = Pending"
  shows "timer (calls (run evs w1) ! cid) = Some 5000 \<and>
         settled (calls (handle (TimerFires cid) (run evs w1)) ! cid) =
           Rejected (new_Error ''Recording stop timeout - please try again'') \<and>
         stream (handle (TimerFires cid) (run evs w1)) = None \<and>
         streams (handle (TimerFires cid) (run evs w1)) ! sid = map track_stop (streams w ! sid) \<and>
         mediaRecorder (handle (TimerFires cid) (run evs w1)) = None \<and>
         audioChunks (handle (TimerFires cid) (run evs w1)) = [] \<and>
         cleanups (handle (TimerFires cid) (run evs w1)) = Suc (cleanups (run evs w1)) \<and>
         (\<forall>es. settled (calls (run es w1) ! cid) = Pending \<longrightarrow>
               timer (calls (run es w1) ! cid) = Some 5000) \<and>
         (\<forall>ds. list_all is_data ds \<longrightarrow> settled (calls (run ds w1) ! cid) = Pending)"
proof -
  from assms(1,2) obtain rid where rid: "mediaRecorder w = Some rid" "rid < length (recorders w)"
      "state (recorders w ! rid) = recording"
    by (auto simp: isRecording_iff wf_def)
  from assms(2,3) have sid: "sid < length (streams w)" by (simp add: wf_def)
  from stopRecording_recording [OF rid] assms(4) have cid: "cid = length (calls w)" and
    w1: "w1 = w\<lparr>calls := calls w @ [\<lparr>settled = Pending, timer = Some 5000\<rparr>],
        recorders := (recorders w)[rid := (recorders w ! rid)
           \<lparr>onstop := Some (length (calls w)),
            onerror := StopOnError (length (calls w)), state := inactive\<rparr>]\<rparr>"
    by simp_all
  have len1: "cid < length (calls w1)" by (simp add: w1 cid)
  have call1: "calls w1 ! cid = \<lparr>settled = Pending, timer = Some 5000\<rparr>" by (simp add: w1 cid)
  have inv: "\<forall>es. settled (calls (run es w1) ! cid) = Pending \<longrightarrow>
               timer (calls (run es w1) ! cid) = Some 5000"
  proof (intro allI impI)
    fix es
    assume p: "settled (calls (run es w1) ! cid) = Pending"
    from run_keeps_pending [OF len1 p] show "timer (calls (run es w1) ! cid) = Some 5000"
      by (simp add: call1)
  qed
  have data: "\<forall>ds. list_all is_data ds \<longrightarrow> settled (calls (run ds w1) ! cid) = Pending"
    using run_data_pending [OF len1] by (simp add: call1)
  define w2 where "w2 = run evs w1"
  have pend: "settled (calls w2 ! cid) = Pending" using assms(5) by (simp add: w2_def)
  have armed: "timer (calls w2 ! cid) = Some 5000" using inv assms(5) by (simp add: w2_def)
  have len: "cid < length (calls w2)" using len1 by (simp add: w2_def length_calls_run)
  have fire: "handle (TimerFires cid) w2 = stop_timeout cid (clearTimeout cid w2)"
    using len armed by simp
  have settled: "settled (calls (handle (TimerFires cid) w2) ! cid) =
           Rejected (new_Error ''Recording stop timeout - please try again'')"
    using len pend unfolding fire
    by (simp add: stop_timeout_def call_reject_call call_clearTimeout cleanup_fields
          clearTimeout_fields)
  have s1: "stream w1 = Some sid" "sid < length (streams w1)" "streams w1 = streams w"
    using assms(3) sid by (simp_all add: w1)
  from run_streams [OF s1(1,2), of evs]
  have st: "sid < length (streams w2)"
      "(stream w2 = Some sid \<and> streams w2 ! sid = streams w ! sid) \<or>
       (stream w2 = None \<and> streams w2 ! sid = map track_stop (streams w ! sid))"
    by (simp_all add: w2_def s1(3))
  have "streams (cleanup w2) ! sid = map track_stop (streams w ! sid)"
    using st by (auto simp: cleanup_streams)
  then have rel: "streams (handle (TimerFires cid) w2) ! sid = map track_stop (streams w ! sid)"
    unfolding fire
    by (simp add: stop_timeout_def reject_call_fields cleanup_streams clearTimeout_fields
          split: option.splits)
  have rest: "stream (handle (TimerFires cid) w2) = None"
      "mediaRecorder (handle (TimerFires cid) w2) = None"
      "audioChunks (handle (TimerFires cid) w2) = []"
      "cleanups (handle (TimerFires cid) w2) = Suc (cleanups w2)"
    unfolding fire
    by (simp_all add: stop_timeout_def reject_call_fields cleanup_fields clearTimeout_fields)
  from armed settled rel rest inv data show ?thesis
    unfolding w2_def by simp
qed

theorem stop_timeout_path_witness:
  "isRecording recording_session \<and> wf recording_session \<and>
   stream recording_session = Some 0 \<and>
   stopRecording recording_session = (0, stopping_session) \<and>
   settled (calls (run [DataAvailable 0 chunk_b] stopping_session) ! 0) = Pending \<and>
   settled (calls (handle (TimerFires 0) (run [DataAvailable 0 chunk_b] stopping_session)) ! 0) =
     Rejected (new_Error ''Recording stop timeout - please try again'') \<and>
   streams (handle (TimerFires 0) (run [DataAvailable 0 chunk_b] stopping_session)) ! 0 =
     map track_stop (streams recording_session ! 0)"
proof -
  have h1: "isRecording recording_session" by code_simp
  have h2: "wf recording_session" by code_simp
  have h3: "stream recording_session = Some 0" by code_simp
  have h4: "stopRecording recording_session = (0, stopping_session)" by code_simp
  have h5: "settled (calls (run [DataAvailable 0 chunk_b] stopping_session) ! 0) = Pending"
    by code_simp
  from stop_timeout_path [OF h1 h2 h3 h4 h5] h1 h2 h3 h4 h5 show ?thesis
    by (simp del: handle.simps)
qed

text \<open>
  C5. When the \<^verbatim>\<open>stop\<close> event of a recorder reaches the handler that \<^verbatim>\<open>stopRecording\<close>
  installed, and the promise is still pending: the promise resolves only if some
  collected chunk is not empty, and then with a blob of non-zero size whose bytes are the
  chunks' bytes in order; with an empty chunk sequence it rejects with
  \<^verbatim>\<open>No audio data recorded\<close>, with chunks of total size zero it rejects with
  \<^verbatim>\<open>Empty audio recording\<close>; and whenever some collected chunk is not empty, it does
  resolve.
\<close>

theorem finalization_needs_audio:
  assumes "rid < length (recorders w)" and "onstop (recorders w ! rid) = Some cid"
      and "cid < length (calls w)" and "settled (calls w ! cid) = Pending"
  shows "(\<forall>b. settled (calls (handle (RecorderStop rid) w) ! cid) = Resolved b \<longrightarrow>
            (\<exists>c\<in>set (audioChunks w). 0 < blob_size c) \<and> 0 < blob_size b \<and>
            bytes b = concat (map bytes (audioChunks w)))
       \<and> (audioChunks w = [] \<longrightarrow>
            settled (calls (handle (RecorderStop rid) w) ! cid) =
              Rejected (new_Error ''No audio data recorded. Please try speaking louder or check your microphone.''))
       \<and> (audioChunks w \<noteq> [] \<and> concat (map bytes (audioChunks w)) = [] \<longrightarrow>
            settled (calls (handle (RecorderStop rid) w) ! cid) =
              Rejected (new_Error ''Empty audio recording. Please try again.''))
       \<and> ((\<exists>c\<in>set (audioChunks w). 0 < blob_size c) \<longrightarrow>
            (\<exists>b. settled (calls (handle (RecorderStop rid) w) ! cid) = Resolved b))"
proof -
  have h: "handle (RecorderStop rid) w = onstop_handler cid w"
    using assms(1,2) by simp
  have nonempty: "(\<exists>c\<in>set (audioChunks w). 0 < blob_size c) =
      (concat (map bytes (audioChunks w)) \<noteq> [])"
    by (auto simp: blob_size_def)
  have empty: "audioChunks w = [] \<Longrightarrow> concat (map bytes (audioChunks w)) = []"
    by simp
  show ?thesis
    unfolding h onstop_handler_settled [OF assms(3,4)] nonempty
    using empty by (auto simp: blob_size_def)
qed

theorem finalization_needs_audio_witness:
  "0 < length (recorders stopping_session) \<and>
   onstop (recorders stopping_session ! 0) = Some 0 \<and>
   0 < length (calls stopping_session) \<and>
   settled (calls stopping_session ! 0) = Pending \<and>
   (\<exists>b. settled (calls (handle (RecorderStop 0) stopping_session) ! 0) = Resolved b)"
proof -
  have h1: "0 < length (recorders stopping_session)" by code_simp
  have h2: "onstop (recorders stopping_session ! 0) = Some 0" by code_simp
  have h3: "0 < length (calls stopping_session)" by code_simp
  have h4: "settled (calls stopping_session ! 0) = Pending" by code_simp
  have h5: "\<exists>c\<in>set (audioChunks stopping_session). 0 < blob_size c" by code_simp
  from finalization_needs_audio [OF h1 h2 h3 h4] h1 h2 h3 h4 h5 show ?thesis by blast
qed

text \<open>
  C6. A session is started, the chunks \<open>bs\<close> arrive, \<^verbatim>\<open>stopRecording\<close> is called, the
  chunks \<open>bs'\<close> arrive, and the \<^verbatim>\<open>stop\<close> event follows. Unless all chunks are empty, the
  promise resolves with the blob whose byte sequence is the concatenation of the chunks
  in their order of arrival, with the negotiated type. For \<open>bs = [c1, c2, c3]\<close> and no
  later chunk these are the bytes of \<open>c1\<close>, then of \<open>c2\<close>, then of \<open>c3\<close>.
\<close>

theorem chunk_order_preserved:
  assumes "startRecording dev w = (Inr (), w1)"
      and "stopRecording (run (map (DataAvailable (length (recorders w))) bs) w1) = (cid, w2)"
  shows "settled (calls (run (map (DataAvailable (length (recorders w))) bs' @
                              [RecorderStop (length (recorders w))]) w2) ! cid) =
     (if concat (map bytes (bs @ bs')) = [] then
        Rejected (new_Error ''No audio data recorded. Please try speaking louder or check your microphone.'')
      else Resolved \<lparr>bytes = concat (map bytes (bs @ bs')),
                     btype = select_mime (isTypeSupported dev) mimeTypes\<rparr>)"
proof -
  let ?rid = "length (recorders w)"
  let ?keep = "filter (\<lambda>b. 0 < blob_size b)"
  let ?mime = "select_mime (isTypeSupported dev) mimeTypes"
  from startRecording_Inr [OF assms(1)] obtain tracks where
    mime: "?mime \<noteq> []" and
    w1: "w1 = w\<lparr>streams := streams w @ [tracks], stream := Some (length (streams w)),
            recorders := recorders w @
              [\<lparr>rec_stream = length (streams w), mimeType = ?mime,
                state = recording, timeslice = Some 1000, onstop = None,
                onerror = StartOnError\<rparr>],
            mediaRecorder := Some ?rid, audioChunks := []\<rparr>"
    by blast
  define wa where "wa = run (map (DataAvailable ?rid) bs) w1"
  have wa: "wa = w1\<lparr>audioChunks := ?keep bs\<rparr>"
    unfolding wa_def by (subst run_data) (simp_all add: w1)
  have stop: "stopRecording wa =
     (length (calls wa),
      wa\<lparr>calls := calls wa @ [\<lparr>settled = Pending, timer = Some 5000\<rparr>],
         recorders := (recorders wa)[?rid := (recorders wa ! ?rid)
           \<lparr>onstop := Some (length (calls wa)),
            onerror := StopOnError (length (calls wa)), state := inactive\<rparr>]\<rparr>)"
    by (rule stopRecording_recording) (simp_all add: wa w1)
  from assms(2) stop have cid: "cid = length (calls wa)" and
    w2: "w2 = wa\<lparr>calls := calls wa @ [\<lparr>settled = Pending, timer = Some 5000\<rparr>],
         recorders := (recorders wa)[?rid := (recorders wa ! ?rid)
           \<lparr>onstop := Some (length (calls wa)),
            onerror := StopOnError (length (calls wa)), state := inactive\<rparr>]\<rparr>"
    by (simp_all add: wa_def)
  define wb where "wb = run (map (DataAvailable ?rid) bs') w2"
  have wb: "wb = w2\<lparr>audioChunks := ?keep bs @ ?keep bs'\<rparr>"
    unfolding wb_def by (subst run_data) (simp_all add: w2 wa w1)
  have len: "cid < length (calls wb)" by (simp add: wb w2 cid)
  have pend: "settled (calls wb ! cid) = Pending" by (simp add: wb w2 cid)
  have rlen: "?rid < length (recorders wb)" by (simp add: wb w2 wa w1)
  have hs: "onstop (recorders wb ! ?rid) = Some cid" by (simp add: wb w2 wa w1 cid)
  have ty: "blob_type wb = ?mime"
    using mime by (simp add: blob_type_def wb w2 wa w1)
  have chunks: "audioChunks wb = ?keep (bs @ bs')" by (simp add: wb)
  have emp: "(?keep (bs @ bs') = []) = (concat (map bytes (bs @ bs')) = [])"
    by (auto simp: filter_empty_conv blob_size_def)
  have "run (map (DataAvailable ?rid) bs' @ [RecorderStop ?rid]) w2 = onstop_handler cid wb"
    using rlen hs by (simp add: run_append run_Cons run_Nil wb_def [symmetric])
  then show ?thesis
    using onstop_handler_settled [OF len pend] emp
    by (simp only: chunks ty concat_nonempty_chunks split: if_splits) auto
qed

theorem chunk_order_preserved_witness:
  "startRecording webm_device new_VoiceRecorder =
     (Inr (), snd (startRecording webm_device new_VoiceRecorder)) \<and>
   settled (calls (run [RecorderStop 0]
      (snd (stopRecording (run [DataAvailable 0 chunk_a, DataAvailable 0 chunk_b, DataAvailable 0 chunk_c]
         (snd (startRecording webm_device new_VoiceRecorder)))))) ! 0) =
     Resolved \<lparr>bytes = [1, 2, 3, 4, 5, 6], btype = ''audio/webm''\<rparr>"
proof -
  have h1: "startRecording webm_device new_VoiceRecorder =
     (Inr (), snd (startRecording webm_device new_VoiceRecorder))" by code_simp
  have h2: "stopRecording (run (map (DataAvailable (length (recorders new_VoiceRecorder)))
       [chunk_a, chunk_b, chunk_c]) (snd (startRecording webm_device new_VoiceRecorder))) =
     (0, snd (stopRecording (run [DataAvailable 0 chunk_a, DataAvailable 0 chunk_b, DataAvailable 0 chunk_c]
         (snd (startRecording webm_device new_VoiceRecorder)))))" by code_simp
  have h3: "length (recorders new_VoiceRecorder) = 0" by code_simp
  have h5: "select_mime (isTypeSupported webm_device) mimeTypes = ''audio/webm''" by code_simp
  from chunk_order_preserved [OF h1 h2, of "[]"] h1 show ?thesis
    by (simp add: h3 h5 chunk_a_def chunk_b_def chunk_c_def)
qed

text \<open>
  C7. Calling \<^verbatim>\<open>cleanup\<close> a second time raises nothing (the function has no failing
  branch) and releases nothing again: after the first call the stream reference is null,
  so the second call leaves every track of every stream as it was, and the recorder
  reference and the chunk sequence stay cleared. The second call changes the count of
  calls only.
\<close>

theorem cleanup_idempotent:
  "cleanup (cleanup w) = (cleanup w)\<lparr>cleanups := Suc (cleanups (cleanup w))\<rparr>
   \<and> streams (cleanup (cleanup w)) = streams (cleanup w)
   \<and> stream (cleanup w) = None
   \<and> mediaRecorder (cleanup (cleanup w)) = None
   \<and> audioChunks (cleanup (cleanup w)) = []"
  by (simp add: cleanup_def Let_def split: option.splits)

theorem cleanup_idempotent_witness:
  "streams (cleanup recording_session) = [[track_stop mic_track]] \<and>
   streams (cleanup (cleanup recording_session)) = [[track_stop mic_track]] \<and>
   stream (cleanup recording_session) = None"
proof -
  have "streams (cleanup recording_session) = [[track_stop mic_track]]" by code_simp
  with cleanup_idempotent [of recording_session] show ?thesis by simp
qed

section \<open>The claims about recognition, transcription and encoding\<close>

text \<open>
  C8. \<^verbatim>\<open>startListening\<close> is called on a recognizer that is not listening, the recognizer
  starts, the \<^verbatim>\<open>result\<close> events \<open>evs\<close> arrive and listening ends normally. The promise
  depends on the entries flagged final only (those from \<^verbatim>\<open>resultIndex\<close> on in each
  event): it resolves with their concatenated transcripts, trimmed, if that is not
  empty, and rejects with \<^verbatim>\<open>No speech detected\<close> otherwise. With no final entry at all
  (no result, or interim results only) it rejects. A transcript it resolves with is not
  empty, not made of white space only, and already trimmed.
\<close>

theorem final_results_only:
  assumes "recognition s" and "\<not> isListening s" and "startListening False s = (cid, s1)"
  shows "outcome (lcalls (listen_run (OnStart # map OnResult evs @ [OnEnd]) s1) ! cid) =
           (if trim (concat (map transcript (final_entries evs))) \<noteq> [] then
              Resolved (trim (concat (map transcript (final_entries evs))))
            else Rejected (new_Error ''No speech detected''))
       \<and> (final_entries evs = [] \<longrightarrow>
            outcome (lcalls (listen_run (OnStart # map OnResult evs @ [OnEnd]) s1) ! cid) =
              Rejected (new_Error ''No speech detected''))
       \<and> (\<forall>t. outcome (lcalls (listen_run (OnStart # map OnResult evs @ [OnEnd]) s1) ! cid) =
                 Resolved t \<longrightarrow>
               t \<noteq> [] \<and> \<not> list_all is_ws t \<and> trim t = t \<and>
               t = trim (concat (map transcript (final_entries evs))))"
proof -
  let ?acc = "concat (map transcript (final_entries evs))"
  from assms have cid: "cid = length (lcalls s)" and
    s1: "s1 = s\<lparr>lcalls := lcalls s @ [\<lparr>finalTranscript = [], outcome = Pending\<rparr>],
               installed := Some cid\<rparr>"
    by (auto simp: startListening_def Let_def)
  define s2 where "s2 = listen_handle OnStart s1"
  have s2: "s2 = s1\<lparr>isListening := True\<rparr>" by (simp add: s2_def s1)
  have i: "installed s2 = Some cid" and l: "cid < length (lcalls s2)"
    by (simp_all add: s2 s1 cid)
  define s3 where "s3 = listen_run (map OnResult evs) s2"
  have s3: "s3 = s2\<lparr>lcalls := (lcalls s2)[cid := (lcalls s2 ! cid)
          \<lparr>finalTranscript := finalTranscript (lcalls s2 ! cid) @ ?acc\<rparr>]\<rparr>"
    unfolding s3_def by (rule listen_run_results [OF i l])
  have run: "listen_run (OnStart # map OnResult evs @ [OnEnd]) s1 = listen_handle OnEnd s3"
    by (simp add: listen_run_Cons listen_run_append listen_run_Nil s2_def s3_def
          del: listen_handle.simps)
  have main: "outcome (lcalls (listen_handle OnEnd s3) ! cid) =
           (if trim ?acc \<noteq> [] then Resolved (trim ?acc)
            else Rejected (new_Error ''No speech detected''))"
    by (simp add: s3 s2 s1 cid onend_def settle_listen_def Let_def)
  have nil: "trim [] = []" by (simp add: trim_def)
  show ?thesis
    unfolding run main
    by (auto simp: trim_idem trim_not_blank nil)
qed

theorem final_results_only_witness:
  "recognition fresh_recognizer \<and> \<not> isListening fresh_recognizer \<and>
   startListening False fresh_recognizer = (0, listening_recognizer) \<and>
   final_entries [interim_event] = [] \<and>
   outcome (lcalls (listen_run (OnStart # map OnResult [interim_event] @ [OnEnd])
      listening_recognizer) ! 0) = Rejected (new_Error ''No speech detected'') \<and>
   outcome (lcalls (listen_run (OnStart # map OnResult [interim_event, hello_event] @ [OnEnd])
      listening_recognizer) ! 0) = Resolved ''hello''"
proof -
  have h1: "recognition fresh_recognizer" by code_simp
  have h2: "\<not> isListening fresh_recognizer" by code_simp
  have h3: "startListening False fresh_recognizer = (0, listening_recognizer)" by code_simp
  have h4: "final_entries [interim_event] = []" by code_simp
  have h5: "trim (concat (map transcript (final_entries [interim_event, hello_event]))) = ''hello''"
    by code_simp
  have a: "outcome (lcalls (listen_run (OnStart # map OnResult [interim_event] @ [OnEnd])
      listening_recognizer) ! 0) = Rejected (new_Error ''No speech detected'')"
    using final_results_only [OF h1 h2 h3, of "[interim_event]", THEN conjunct2, THEN conjunct1] h4
    by blast
  have b: "outcome (lcalls (listen_run (OnStart # map OnResult [interim_event, hello_event] @ [OnEnd])
      listening_recognizer) ! 0) = Resolved ''hello''"
    using final_results_only [OF h1 h2 h3, of "[interim_event, hello_event]", THEN conjunct1]
    unfolding h5 by simp
  show ?thesis
    by (intro conjI) (rule h1 h2 h3 h4 a b)+
qed

text \<open>
  C9. When the response is \<^verbatim>\<open>ok\<close> and its \<^verbatim>\<open>text\<close> is empty or white space only, the
  handler shows the \<^verbatim>\<open>No speech detected\<close> toast and does not call
  \<^verbatim>\<open>onTranscription\<close>. Whenever the handler calls \<^verbatim>\<open>onTranscription\<close>, the transcript is
  the trimmed \<^verbatim>\<open>text\<close> of an \<^verbatim>\<open>ok\<close> response, and it is neither empty nor white space
  only.
\<close>

theorem blank_transcript_is_no_speech:
  "(ok resp \<and> json resp = Inr (JObj (Some text) err) \<and> list_all is_ws text \<longrightarrow>
      handle_response nm resp =
        [Toast ''No speech detected'' ''Please try speaking more clearly'' True] \<and>
      (\<forall>env t. fetch_result env = Inr resp \<longrightarrow>
         OnTranscription t \<notin> set (handleStopRecording env)))
   \<and> (\<forall>env t. OnTranscription t \<in> set (handleStopRecording env) \<longrightarrow>
         t \<noteq> [] \<and> \<not> list_all is_ws t \<and>
         (\<exists>r raw e. fetch_result env = Inr r \<and> ok r \<and> json r = Inr (JObj (Some raw) e) \<and>
            t = trim raw))"
proof -
  have delivered: "t \<noteq> [] \<and> \<not> list_all is_ws t \<and>
         (\<exists>r raw e. fetch_result env = Inr r \<and> ok r \<and> json r = Inr (JObj (Some raw) e) \<and>
            t = trim raw)"
    if "OnTranscription t \<in> set (handleStopRecording env)" for env t
  proof -
    from handleStopRecording_transcription [OF that] obtain r where
      r: "fetch_result env = Inr r"
         "OnTranscription t \<in> set (handle_response (null_error_message env) r)"
      by blast
    from handle_response_transcription [OF r(2)] obtain raw e where
      raw: "ok r" "json r = Inr (JObj (Some raw) e)" "trim raw \<noteq> []" "t = trim raw"
      by blast
    from raw(3,4) have "t \<noteq> []" "\<not> list_all is_ws t"
      by (simp_all add: trim_not_blank)
    with r(1) raw show ?thesis by blast
  qed
  have blank: "handle_response nm resp =
        [Toast ''No speech detected'' ''Please try speaking more clearly'' True] \<and>
      (\<forall>env t. fetch_result env = Inr resp \<longrightarrow>
         OnTranscription t \<notin> set (handleStopRecording env))"
    if a: "ok resp \<and> json resp = Inr (JObj (Some text) err) \<and> list_all is_ws text"
  proof -
    from a have tr: "trim text = []" by (simp add: trim_blank)
    with a have one: "handle_response nm resp =
        [Toast ''No speech detected'' ''Please try speaking more clearly'' True]"
      by (simp add: handle_response_def no_speech_toast_def)
    have two: "OnTranscription t \<notin> set (handleStopRecording env)"
      if f: "fetch_result env = Inr resp" for env t
    proof
      assume "OnTranscription t \<in> set (handleStopRecording env)"
      from delivered [OF this] f a tr show False by auto
    qed
    from one two show ?thesis by blast
  qed
  from blank delivered show ?thesis by blast
qed

theorem blank_transcript_is_no_speech_witness:
  "ok blank_response \<and> json blank_response = Inr (JObj (Some ''  '') None) \<and>
   list_all is_ws ''  '' \<and>
   handle_response [] blank_response =
     [Toast ''No speech detected'' ''Please try speaking more clearly'' True]"
proof -
  have h1: "ok blank_response" by code_simp
  have h2: "json blank_response = Inr (JObj (Some ''  '') None)" by code_simp
  have h3: "list_all is_ws ''  ''" by code_simp
  have a: "handle_response [] blank_response =
     [Toast ''No speech detected'' ''Please try speaking more clearly'' True]"
    using blank_transcript_is_no_speech [of blank_response "''  ''" None "[]", THEN conjunct1]
      h1 h2 h3 by blast
  show ?thesis
    by (intro conjI) (rule h1 h2 h3 a)+
qed

text \<open>
  C10. For a blob of size zero \<^verbatim>\<open>convertBlobToBase64\<close> rejects at once with
  \<^verbatim>\<open>Cannot convert empty blob to base64\<close>: no reader is created and no timeout is set, so
  no later event changes the outcome; and \<^verbatim>\<open>handleStopRecording\<close>, given such a blob by
  the recorder, never calls \<^verbatim>\<open>fetch\<close>. For a blob of non-zero size the promise is pending
  with a timeout of 10000 ms armed; while it is pending the timeout stays armed, and
  when the timeout fires the promise rejects with the timeout message, which is
  \<^verbatim>\<open>Conversion timeout - please try again\<close> in VoiceRecorder.ts.
\<close>

theorem empty_blob_not_encoded:
  "(blob_size b = 0 \<longrightarrow>
      convertBlobToBase64 b =
        \<lparr>cpromise = Rejected (new_Error ''Cannot convert empty blob to base64''),
         ctimer = None, reader = None\<rparr> \<and>
      (\<forall>msg evs. conv_run msg evs (convertBlobToBase64 b) = convertBlobToBase64 b) \<and>
      (\<forall>env p. stop_result env = Some (Resolved b) \<longrightarrow> Fetch p \<notin> set (handleStopRecording env)))
   \<and> (0 < blob_size b \<longrightarrow>
      convertBlobToBase64 b = \<lparr>cpromise = Pending, ctimer = Some 10000, reader = Some b\<rparr> \<and>
      cpromise (conv_handle utils_timeout_message ConvTimerFires (convertBlobToBase64 b)) =
        Rejected (new_Error ''Conversion timeout - please try again'') \<and>
      (\<forall>msg evs. cpromise (conv_run msg evs (convertBlobToBase64 b)) = Pending \<longrightarrow>
          ctimer (conv_run msg evs (convertBlobToBase64 b)) = Some 10000 \<and>
          cpromise (conv_handle msg ConvTimerFires (conv_run msg evs (convertBlobToBase64 b))) =
            Rejected (new_Error msg)))"
proof (intro conjI impI allI)
  assume z: "blob_size b = 0"
  then show c0: "convertBlobToBase64 b =
        \<lparr>cpromise = Rejected (new_Error ''Cannot convert empty blob to base64''),
         ctimer = None, reader = None\<rparr>"
    by (simp add: convertBlobToBase64_def)
  show idle: "conv_run msg evs (convertBlobToBase64 b) = convertBlobToBase64 b" for msg evs
    by (rule conv_run_idle) (simp_all add: c0)
  show "Fetch p \<notin> set (handleStopRecording env)" if "stop_result env = Some (Resolved b)"
    for env p
    using that by (simp add: handleStopRecording_def Let_def idle) (simp add: c0 new_Error_def)
next
  assume "0 < blob_size b"
  then show c0: "convertBlobToBase64 b = \<lparr>cpromise = Pending, ctimer = Some 10000, reader = Some b\<rparr>"
    by (simp add: convertBlobToBase64_def)
  show "cpromise (conv_handle utils_timeout_message ConvTimerFires (convertBlobToBase64 b)) =
        Rejected (new_Error ''Conversion timeout - please try again'')"
    by (simp add: c0 conversion_timeout_def utils_timeout_message_def)
  fix msg evs
  assume "cpromise (conv_run msg evs (convertBlobToBase64 b)) = Pending"
  then have same: "conv_run msg evs (convertBlobToBase64 b) = convertBlobToBase64 b"
    by (rule conv_run_keeps_pending)
  show "ctimer (conv_run msg evs (convertBlobToBase64 b)) = Some 10000"
    unfolding same by (simp add: c0)
  show "cpromise (conv_handle msg ConvTimerFires (conv_run msg evs (convertBlobToBase64 b))) =
            Rejected (new_Error msg)"
    unfolding same by (simp add: c0 conversion_timeout_def)
qed

theorem empty_blob_not_encoded_witness:
  "blob_size empty_blob = 0 \<and> stop_result empty_audio_env = Some (Resolved empty_blob) \<and>
   cpromise (convertBlobToBase64 empty_blob) =
     Rejected (new_Error ''Cannot convert empty blob to base64'') \<and>
   Fetch ''AAAA'' \<notin> set (handleStopRecording empty_audio_env) \<and>
   0 < blob_size chunk_a \<and>
   cpromise (conv_handle utils_timeout_message ConvTimerFires (convertBlobToBase64 chunk_a)) =
     Rejected (new_Error ''Conversion timeout - please try again'')"
proof -
  have h1: "blob_size empty_blob = 0" by code_simp
  have h2: "stop_result empty_audio_env = Some (Resolved empty_blob)" by code_simp
  have h3: "0 < blob_size chunk_a" by code_simp
  have a: "cpromise (convertBlobToBase64 empty_blob) =
     Rejected (new_Error ''Cannot convert empty blob to base64'')"
    using empty_blob_not_encoded [of empty_blob, THEN conjunct1] h1 by simp
  have b: "Fetch ''AAAA'' \<notin> set (handleStopRecording empty_audio_env)"
    using empty_blob_not_encoded [of empty_blob, THEN conjunct1] h1 h2 by blast
  have c: "cpromise (conv_handle utils_timeout_message ConvTimerFires (convertBlobToBase64 chunk_a)) =
     Rejected (new_Error ''Conversion timeout - please try again'')"
    using empty_blob_not_encoded [of chunk_a, THEN conjunct2] h3 by blast
  show ?thesis
    by (intro conjI) (rule h1 h2 h3 a b c)+
qed

end
